theory Spec2Isabelle
  imports Complex_Main "HOL-Library.Sublist"
begin

section \<open>Python values\<close>

text \<open>
  The proxy of \<^verbatim>\<open>cmdrdata_gemini/proxy.py\<close> works on arbitrary Python values: results of
  the wrapped client's methods, keyword arguments, members of the client. A value is a
  scalar, a list, a tuple, a dictionary, or a reference to an object of the object store.
  \<open>PEllipsis\<close> is the constant \<^verbatim>\<open>...\<close>, which the wrapper uses as the default of
  \<^verbatim>\<open>customer_id\<close>.
\<close>

type_synonym addr = nat

datatype pyval =
    PNone
  | PEllipsis
  | PBool bool
  | PInt int
  | PFloat real
  | PStr string
  | PList "pyval list"
  | PTuple "pyval list"
  | PDict "(pyval \<times> pyval) list"
  | PRef addr

type_synonym pydict = "(pyval \<times> pyval) list"

text \<open>
  Keyword arguments (\<^verbatim>\<open>**kwargs\<close>) and the members of an object have strings as
  names.
\<close>

type_synonym kwargs = "(string \<times> pyval) list"

text \<open>
  An object of the store: the name of its type, its members as \<^verbatim>\<open>getattr\<close> finds them,
  its truth value \<^verbatim>\<open>bool(obj)\<close> (false only when its class defines \<^verbatim>\<open>__bool__\<close> or
  \<^verbatim>\<open>__len__\<close> that way), and the three tests \<^verbatim>\<open>__getattr__\<close> makes on a member:
  \<^verbatim>\<open>callable(attr)\<close>, \<^verbatim>\<open>hasattr(attr, "__dict__")\<close> and
  \<^verbatim>\<open>isinstance(attr, (str, int, float, bool, type(None)))\<close> (true of an instance of a
  subclass of one of these types).
\<close>

record pyobject =
  obj_type :: string
  obj_attrs :: kwargs
  obj_truthy :: bool
  obj_callable :: bool
  obj_has_dict :: bool
  obj_scalar :: bool

type_synonym store = "addr \<rightharpoonup> pyobject"

text \<open>
  Truth value of a Python value (\<^verbatim>\<open>if v:\<close>, \<^verbatim>\<open>v and ...\<close>). For an object it is what
  its class says.
\<close>

fun truthy :: "store \<Rightarrow> pyval \<Rightarrow> bool" where
  "truthy os PNone = False"
| "truthy os PEllipsis = True"
| "truthy os (PBool b) = b"
| "truthy os (PInt i) = (i \<noteq> 0)"
| "truthy os (PFloat x) = (x \<noteq> 0)"
| "truthy os (PStr s) = (s \<noteq> [])"
| "truthy os (PList xs) = (xs \<noteq> [])"
| "truthy os (PTuple xs) = (xs \<noteq> [])"
| "truthy os (PDict kvs) = (kvs \<noteq> [])"
| "truthy os (PRef a) = (case os a of None \<Rightarrow> True | Some ob \<Rightarrow> obj_truthy ob)"

text \<open>
  \<^verbatim>\<open>getattr(v, name)\<close>: \<open>None\<close> stands for AttributeError. Only objects of the store
  have members here; the methods of the built-in types are not modelled.
\<close>

fun py_getattr :: "store \<Rightarrow> pyval \<Rightarrow> string \<Rightarrow> pyval option" where
  "py_getattr objs (PRef a) name =
     (case objs a of None \<Rightarrow> None | Some ob \<Rightarrow> map_of (obj_attrs ob) name)"
| "py_getattr objs v name = None"

definition py_hasattr :: "store \<Rightarrow> pyval \<Rightarrow> string \<Rightarrow> bool" where
  "py_hasattr objs v name = (py_getattr objs v name \<noteq> None)"

text \<open>\<^verbatim>\<open>getattr(v, name, default)\<close>.\<close>

definition py_getattr_default :: "store \<Rightarrow> pyval \<Rightarrow> string \<Rightarrow> pyval \<Rightarrow> pyval" where
  "py_getattr_default objs v name d =
     (case py_getattr objs v name of None \<Rightarrow> d | Some x \<Rightarrow> x)"

text \<open>\<^verbatim>\<open>type(v).__name__\<close>.\<close>

fun py_type_name :: "store \<Rightarrow> pyval \<Rightarrow> string" where
  "py_type_name objs PNone = ''NoneType''"
| "py_type_name objs PEllipsis = ''ellipsis''"
| "py_type_name objs (PBool b) = ''bool''"
| "py_type_name objs (PInt i) = ''int''"
| "py_type_name objs (PFloat x) = ''float''"
| "py_type_name objs (PStr s) = ''str''"
| "py_type_name objs (PList xs) = ''list''"
| "py_type_name objs (PTuple xs) = ''tuple''"
| "py_type_name objs (PDict kvs) = ''dict''"
| "py_type_name objs (PRef a) =
     (case objs a of None \<Rightarrow> ''object'' | Some ob \<Rightarrow> obj_type ob)"

definition quoted :: "string \<Rightarrow> string" where
  "quoted s = CHR 0x27 # s @ [CHR 0x27]"

section \<open>Exceptions\<close>

text \<open>
  An exception object, as far as the source looks at it: the name of its class, its
  string form \<^verbatim>\<open>str(e)\<close>, and its member \<^verbatim>\<open>code\<close>. The wrapper tests
  \<^verbatim>\<open>hasattr(e, 'code')\<close> and then evaluates \<^verbatim>\<open>str(e.code())\<close>, so the member is
  absent, or a value that is not callable (with the name of its type), or a method
  (with the string form of what it returns), or a method whose call raises.
  Values of this type stand for instances of \<^verbatim>\<open>Exception\<close>, which is what every
  \<^verbatim>\<open>except Exception\<close> clause of the source catches.
\<close>

datatype exc = Exc (exc_type: string) (exc_str: string) (exc_code: code_member)
and code_member =
    NoCode
  | CodeNotCallable string
  | CodeReturns string
  | CodeRaises exc

section \<open>Keyword arguments and dictionaries\<close>

text \<open>\<^verbatim>\<open>kwargs.pop(key, default)\<close>: the value and the dictionary without the key.\<close>

definition kwargs_pop :: "string \<Rightarrow> pyval \<Rightarrow> kwargs \<Rightarrow> pyval \<times> kwargs" where
  "kwargs_pop key d kwargs =
     ((case map_of kwargs key of None \<Rightarrow> d | Some v \<Rightarrow> v),
      filter (\<lambda>kv. fst kv \<noteq> key) kwargs)"

text \<open>\<^verbatim>\<open>kwargs.get(key, default)\<close>.\<close>

definition kwargs_get :: "kwargs \<Rightarrow> string \<Rightarrow> pyval \<Rightarrow> pyval" where
  "kwargs_get kwargs key d = (case map_of kwargs key of None \<Rightarrow> d | Some v \<Rightarrow> v)"

text \<open>
  \<^verbatim>\<open>setattr(obj, name, v)\<close> on the members of an object: an existing name gets the new
  value in place, a new one is appended.
\<close>

fun dict_set :: "kwargs \<Rightarrow> string \<Rightarrow> pyval \<Rightarrow> kwargs" where
  "dict_set [] k v = [(k, v)]"
| "dict_set ((k', v') # kvs) k v =
     (if k' = k then (k, v) # kvs else (k', v') # dict_set kvs k v)"

text \<open>
  The keys of a dictionary are compared by \<^verbatim>\<open>==\<close>: \<^verbatim>\<open>True\<close>, \<^verbatim>\<open>1\<close> and \<^verbatim>\<open>1.0\<close>
  are one key. \<open>key_norm\<close> maps equal keys to one value. Lists and dictionaries cannot
  be keys; \<open>unhashable\<close> finds the part of a key that is one.
\<close>

fun key_norm :: "pyval \<Rightarrow> pyval" where
  "key_norm (PBool b) = PInt (if b then 1 else 0)"
| "key_norm (PFloat x) = (if x = of_int \<lfloor>x\<rfloor> then PInt \<lfloor>x\<rfloor> else PFloat x)"
| "key_norm (PTuple xs) = PTuple (map key_norm xs)"
| "key_norm v = v"

fun unhashable :: "pyval \<Rightarrow> pyval option"
  and unhashable_among :: "pyval list \<Rightarrow> pyval option" where
  "unhashable (PList xs) = Some (PList xs)"
| "unhashable (PDict kvs) = Some (PDict kvs)"
| "unhashable (PTuple xs) = unhashable_among xs"
| "unhashable PNone = None"
| "unhashable PEllipsis = None"
| "unhashable (PBool b) = None"
| "unhashable (PInt i) = None"
| "unhashable (PFloat x) = None"
| "unhashable (PStr s) = None"
| "unhashable (PRef a) = None"
| "unhashable_among [] = None"
| "unhashable_among (x # xs) =
     (case unhashable x of None \<Rightarrow> unhashable_among xs | Some u \<Rightarrow> Some u)"

text \<open>\<^verbatim>\<open>d[k] = v\<close>: an equal key keeps its place (and the key object), a new one is
  appended.\<close>

fun pydict_set :: "pydict \<Rightarrow> pyval \<Rightarrow> pyval \<Rightarrow> pydict" where
  "pydict_set [] k v = [(k, v)]"
| "pydict_set ((k', v') # kvs) k v =
     (if key_norm k' = key_norm k then (k', v) # kvs else (k', v') # pydict_set kvs k v)"

text \<open>\<^verbatim>\<open>d.get(k)\<close>.\<close>

fun pydict_get :: "pydict \<Rightarrow> pyval \<Rightarrow> pyval option" where
  "pydict_get [] k = None"
| "pydict_get ((k', v') # kvs) k =
     (if key_norm k' = key_norm k then Some v' else pydict_get kvs k)"

text \<open>\<^verbatim>\<open>d.update(other)\<close> for a dictionary \<open>other\<close>.\<close>

fun pydict_update :: "pydict \<Rightarrow> pydict \<Rightarrow> pydict" where
  "pydict_update d [] = d"
| "pydict_update d ((k, v) # kvs) = pydict_update (pydict_set d k v) kvs"

text \<open>The decimal form of a number, for the messages of exceptions.\<close>

fun show_nat :: "nat \<Rightarrow> string" where
  "show_nat n =
     (if n < 10 then [''0123456789'' ! n]
      else show_nat (n div 10) @ [''0123456789'' ! (n mod 10)])"

declare show_nat.simps [simp del]

text \<open>
  \<^verbatim>\<open>d.update(other)\<close> for a sequence \<open>other\<close>: every element has to be a sequence of
  length two, its first element the key and its second the value. Element \<open>i\<close> as such
  a pair: of a list or a tuple its two elements, of a string its two characters, of a
  dictionary its two keys. The objects of the store are not iterable.
\<close>

definition length_error :: "nat \<Rightarrow> nat \<Rightarrow> exc" where
  "length_error i n =
     Exc ''ValueError''
       (''dictionary update sequence element #'' @ show_nat i @ '' has length '' @
          show_nat n @ ''; 2 is required'') NoCode"

fun item_pair :: "nat \<Rightarrow> pyval \<Rightarrow> exc + pyval \<times> pyval" where
  "item_pair i (PList xs) =
     (case xs of [k, v] \<Rightarrow> Inr (k, v) | _ \<Rightarrow> Inl (length_error i (length xs)))"
| "item_pair i (PTuple xs) =
     (case xs of [k, v] \<Rightarrow> Inr (k, v) | _ \<Rightarrow> Inl (length_error i (length xs)))"
| "item_pair i (PStr s) =
     (case s of [a, b] \<Rightarrow> Inr (PStr [a], PStr [b]) | _ \<Rightarrow> Inl (length_error i (length s)))"
| "item_pair i (PDict kvs) =
     (case kvs of
        [kv, kv'] \<Rightarrow> Inr (fst kv, fst kv')
      | _ \<Rightarrow> Inl (length_error i (length kvs)))"
| "item_pair i v =
     Inl (Exc ''TypeError''
        (''cannot convert dictionary update sequence element #'' @ show_nat i @
           '' to a sequence'') NoCode)"

fun update_from_seq :: "store \<Rightarrow> pydict \<Rightarrow> nat \<Rightarrow> pyval list \<Rightarrow> exc + pydict" where
  "update_from_seq os d i [] = Inr d"
| "update_from_seq os d i (x # xs) =
     (case item_pair i x of
        Inl e \<Rightarrow> Inl e
      | Inr (k, v) \<Rightarrow>
          (case unhashable k of
             None \<Rightarrow> update_from_seq os (pydict_set d k v) (Suc i) xs
           | Some u \<Rightarrow>
               Inl (Exc ''TypeError'' (''unhashable type: '' @ quoted (py_type_name os u))
                  NoCode)))"

text \<open>
  \<^verbatim>\<open>metadata.update(custom_metadata)\<close> for any value: a dictionary is merged; a list, a
  tuple or a string is taken as a sequence of pairs (a string as the sequence of its
  characters, so a string that is not empty raises ValueError); a value that is not
  iterable raises TypeError. The objects of the store are not iterable and no mappings.
\<close>

definition update_with :: "store \<Rightarrow> pydict \<Rightarrow> pyval \<Rightarrow> exc + pydict" where
  "update_with os d v =
     (case v of
        PDict kvs \<Rightarrow> Inr (pydict_update d kvs)
      | PList xs \<Rightarrow> update_from_seq os d 0 xs
      | PTuple xs \<Rightarrow> update_from_seq os d 0 xs
      | PStr s \<Rightarrow> update_from_seq os d 0 (map (\<lambda>c. PStr [c]) s)
      | _ \<Rightarrow> Inl (Exc ''TypeError''
                 (quoted (py_type_name os v) @ '' object is not iterable'') NoCode))"

text \<open>\<^verbatim>\<open>v[0]\<close>.\<close>

fun py_first :: "store \<Rightarrow> pyval \<Rightarrow> exc + pyval" where
  "py_first os (PList (x # xs)) = Inr x"
| "py_first os (PList []) = Inl (Exc ''IndexError'' ''list index out of range'' NoCode)"
| "py_first os (PTuple (x # xs)) = Inr x"
| "py_first os (PTuple []) = Inl (Exc ''IndexError'' ''tuple index out of range'' NoCode)"
| "py_first os (PStr (c # cs)) = Inr (PStr [c])"
| "py_first os (PStr []) = Inl (Exc ''IndexError'' ''string index out of range'' NoCode)"
| "py_first os (PDict kvs) =
     (case pydict_get kvs (PInt 0) of
        None \<Rightarrow> Inl (Exc ''KeyError'' ''0'' NoCode)
      | Some v \<Rightarrow> Inr v)"
| "py_first os v =
     Inl (Exc ''TypeError'' (quoted (py_type_name os v) @ '' object is not subscriptable'')
        NoCode)"

section \<open>What a tracked call passes on\<close>

text \<open>
  The keyword arguments with which the wrapper calls an extraction function, and with
  which an extraction function calls \<^verbatim>\<open>tracker.track_usage_background\<close>. The tracker is
  an opaque reference.
\<close>

type_synonym tracker = nat

record track_call =
  tc_result :: pyval
  tc_customer_id :: pyval
  tc_tracker :: tracker
  tc_method_name :: string
  tc_args :: "pyval list"
  tc_kwargs :: kwargs
  tc_custom_metadata :: pyval
  tc_request_start_time :: pyval
  tc_request_end_time :: pyval
  tc_error_occurred :: pyval
  tc_error_type :: pyval
  tc_error_code :: pyval
  tc_error_message :: pyval
  tc_request_id :: pyval

record usage_event =
  ue_customer_id :: pyval
  ue_model :: pyval
  ue_input_tokens :: pyval
  ue_output_tokens :: pyval
  ue_provider :: string
  ue_metadata :: pydict
  ue_request_start_time :: pyval
  ue_request_end_time :: pyval
  ue_error_occurred :: pyval
  ue_error_type :: pyval
  ue_error_code :: pyval
  ue_error_message :: pyval
  ue_request_id :: pyval

text \<open>
  What a call does besides returning: the underlying method is invoked, an extraction
  function is invoked, a usage event is handed to a tracker, a warning is logged.
\<close>

datatype event =
    MethodCalled "pyval list" kwargs
  | TrackerCalled track_call
  | Emitted tracker usage_event
  | Warning string

section \<open>Extraction functions\<close>

text \<open>
  Modelled from the spec: \<^verbatim>\<open>get_effective_customer_id\<close> is imported from
  \<^verbatim>\<open>context.py\<close>, which is not among the sources. The spec describes it as a pure
  function "consulting override first, then an ambient default if override is the unset
  sentinel (explicit null means no id, do not fall back)". The extraction functions
  below take the resolver as a parameter; this definition is used where a concrete one
  is evaluated.
\<close>

definition get_effective_customer_id :: "pyval \<Rightarrow> pyval \<Rightarrow> pyval" where
  "get_effective_customer_id ambient customer_id =
     (if customer_id = PEllipsis then ambient else customer_id)"

text \<open>
  Lines 222-224 and 288-290:
  \<^verbatim>\<open>model = kwargs.get("model", "unknown")\<close>,
  \<^verbatim>\<open>if isinstance(model, str) and model.startswith("models/"): model = model[7:]\<close>.
\<close>

definition model_of_kwargs :: "kwargs \<Rightarrow> pyval" where
  "model_of_kwargs kwargs =
     (case kwargs_get kwargs ''model'' (PStr ''unknown'') of
        PStr s \<Rightarrow> if take 7 s = ''models/'' then PStr (drop 7 s) else PStr s
      | m \<Rightarrow> m)"

text \<open>
  The conditional expression of lines 233-237:
  \<^verbatim>\<open>getattr(result.candidates[0], "finish_reason", None)
    if hasattr(result, "candidates") and result.candidates else None\<close>.
\<close>

definition finish_reason_of :: "store \<Rightarrow> pyval \<Rightarrow> exc + pyval" where
  "finish_reason_of objs result =
     (case py_getattr objs result ''candidates'' of
        None \<Rightarrow> Inr PNone
      | Some cands \<Rightarrow>
          if truthy objs cands then
            (case py_first objs cands of
               Inl e \<Rightarrow> Inl e
             | Inr c \<Rightarrow> Inr (py_getattr_default objs c ''finish_reason'' PNone))
          else Inr PNone)"

text \<open>
  The body of \<^verbatim>\<open>track_generate_content\<close> between the customer check and the call of
  the tracker (lines 220-241): the event to hand over, or the exception raised on the
  way.
\<close>

definition generate_event :: "store \<Rightarrow> track_call \<Rightarrow> pyval \<Rightarrow> exc + usage_event" where
  "generate_event objs c effective_customer_id =
     (let result = tc_result c;
          model = model_of_kwargs (tc_kwargs c);
          usage = (if truthy objs result then py_getattr objs result ''usage_metadata'' else None);
          extracted =
            (case usage of
               None \<Rightarrow> Inr (PInt 0, PInt 0, [])
             | Some um \<Rightarrow>
                 (case finish_reason_of objs result of
                    Inl e \<Rightarrow> Inl e
                  | Inr fr \<Rightarrow>
                      Inr (py_getattr_default objs um ''prompt_token_count'' (PInt 0),
                           py_getattr_default objs um ''candidates_token_count'' (PInt 0),
                           pydict_update []
                             [(PStr ''response_id'',
                                 py_getattr_default objs result ''id'' PNone),
                              (PStr ''safety_ratings'',
                                 py_getattr_default objs result ''safety_ratings'' PNone),
                              (PStr ''finish_reason'', fr)])))
      in case extracted of
           Inl e \<Rightarrow> Inl e
         | Inr (input_tokens, output_tokens, metadata) \<Rightarrow>
             (case (if truthy objs (tc_custom_metadata c)
                    then update_with objs metadata (tc_custom_metadata c)
                    else Inr metadata) of
                Inl e \<Rightarrow> Inl e
              | Inr metadata' \<Rightarrow>
                  Inr \<lparr>ue_customer_id = effective_customer_id,
                       ue_model = model,
                       ue_input_tokens = input_tokens,
                       ue_output_tokens = output_tokens,
                       ue_provider = ''google'',
                       ue_metadata = metadata',
                       ue_request_start_time = tc_request_start_time c,
                       ue_request_end_time = tc_request_end_time c,
                       ue_error_occurred = tc_error_occurred c,
                       ue_error_type = tc_error_type c,
                       ue_error_code = tc_error_code c,
                       ue_error_message = tc_error_message c,
                       ue_request_id = tc_request_id c\<rparr>))"

text \<open>
  \<^verbatim>\<open>track_generate_content\<close>. \<open>resolve\<close> is \<^verbatim>\<open>get_effective_customer_id\<close>;
  \<open>sink t ev\<close> says whether \<^verbatim>\<open>t.track_usage_background\<close> raises on \<open>ev\<close>. The function
  returns nothing and raises nothing (its body is one \<^verbatim>\<open>try\<close> with
  \<^verbatim>\<open>except Exception\<close>); the result is what it does.
\<close>

definition track_generate_content ::
  "(pyval \<Rightarrow> pyval) \<Rightarrow> (tracker \<Rightarrow> usage_event \<Rightarrow> exc option) \<Rightarrow> store \<Rightarrow> track_call \<Rightarrow> event list"
where
  "track_generate_content resolve sink objs c =
     (let effective_customer_id = resolve (tc_customer_id c) in
      if \<not> truthy objs effective_customer_id
      then [Warning ''No customer_id provided for tracking.'']
      else
        (case generate_event objs c effective_customer_id of
           Inl e \<Rightarrow>
             [Warning (''Failed to extract usage data from generate_content: '' @ exc_str e)]
         | Inr ev \<Rightarrow>
             Emitted (tc_tracker c) ev #
               (case sink (tc_tracker c) ev of
                  None \<Rightarrow> []
                | Some e \<Rightarrow>
                    [Warning (''Failed to extract usage data from generate_content: '' @
                       exc_str e)])))"

text \<open>The body of \<^verbatim>\<open>track_count_tokens\<close> (lines 287-298).\<close>

definition count_tokens_event :: "store \<Rightarrow> track_call \<Rightarrow> pyval \<Rightarrow> exc + usage_event" where
  "count_tokens_event objs c effective_customer_id =
     (let result = tc_result c;
          model = model_of_kwargs (tc_kwargs c);
          total = (if truthy objs result then py_getattr objs result ''total_tokens'' else None);
          input_tokens = (case total of None \<Rightarrow> PInt 0 | Some t \<Rightarrow> t);
          metadata =
            (case total of
               None \<Rightarrow> [(PStr ''operation'', PStr ''count_tokens'')]
             | Some t \<Rightarrow>
                 pydict_set [(PStr ''operation'', PStr ''count_tokens'')]
                   (PStr ''total_tokens'') t)
      in case (if truthy objs (tc_custom_metadata c)
               then update_with objs metadata (tc_custom_metadata c)
               else Inr metadata) of
           Inl e \<Rightarrow> Inl e
         | Inr metadata' \<Rightarrow>
             Inr \<lparr>ue_customer_id = effective_customer_id,
                  ue_model = model,
                  ue_input_tokens = input_tokens,
                  ue_output_tokens = PInt 0,
                  ue_provider = ''google'',
                  ue_metadata = metadata',
                  ue_request_start_time = tc_request_start_time c,
                  ue_request_end_time = tc_request_end_time c,
                  ue_error_occurred = tc_error_occurred c,
                  ue_error_type = tc_error_type c,
                  ue_error_code = tc_error_code c,
                  ue_error_message = tc_error_message c,
                  ue_request_id = tc_request_id c\<rparr>)"

definition track_count_tokens ::
  "(pyval \<Rightarrow> pyval) \<Rightarrow> (tracker \<Rightarrow> usage_event \<Rightarrow> exc option) \<Rightarrow> store \<Rightarrow> track_call \<Rightarrow> event list"
where
  "track_count_tokens resolve sink objs c =
     (let effective_customer_id = resolve (tc_customer_id c) in
      if \<not> truthy objs effective_customer_id
      then [Warning ''No customer_id provided for tracking.'']
      else
        (case count_tokens_event objs c effective_customer_id of
           Inl e \<Rightarrow>
             [Warning (''Failed to extract usage data from count_tokens: '' @ exc_str e)]
         | Inr ev \<Rightarrow>
             Emitted (tc_tracker c) ev #
               (case sink (tc_tracker c) ev of
                  None \<Rightarrow> []
                | Some e \<Rightarrow>
                    [Warning (''Failed to extract usage data from count_tokens: '' @
                       exc_str e)])))"

text \<open>The usage events a run handed to a tracker, in order.\<close>

fun emitted :: "event list \<Rightarrow> usage_event list" where
  "emitted [] = []"
| "emitted (Emitted t ev # es) = ev # emitted es"
| "emitted (e # es) = emitted es"

section \<open>The per-call interceptor\<close>

text \<open>
  What a call of the wrapper reads from its environment: \<^verbatim>\<open>str(uuid.uuid4())\<close> and the
  two readings of \<^verbatim>\<open>time.time()\<close>.
\<close>

record call_env =
  env_request_id :: string
  env_start_time :: real
  env_end_time :: real

text \<open>
  The function \<^verbatim>\<open>wrapped\<close> that \<^verbatim>\<open>_wrap_method\<close> returns (lines 108-180).
  \<open>os\<close> is the object store, which the truth value of \<^verbatim>\<open>track_usage\<close> is read from.
  \<open>method\<close> is the underlying method: it returns a value or raises. \<open>tracker_func\<close> is
  the extraction function: \<open>None\<close> when it returns, \<open>Some e\<close> when it raises \<open>e\<close>.
  The result is what the caller sees (\<open>Inr\<close> the value returned, \<open>Inl\<close> the exception
  raised) and what happened on the way, in order.

  On the failure path the handler evaluates \<^verbatim>\<open>hasattr(e, 'code')\<close> and then
  \<^verbatim>\<open>str(e.code())\<close>. An exception raised there leaves the handler at once: neither the
  extraction function nor the bare \<^verbatim>\<open>raise\<close> is reached.
\<close>

definition wrapped ::
  "store \<Rightarrow> call_env \<Rightarrow> (pyval list \<Rightarrow> kwargs \<Rightarrow> exc + pyval) \<Rightarrow>
   (track_call \<Rightarrow> exc option) \<Rightarrow> tracker \<Rightarrow> string \<Rightarrow> pyval list \<Rightarrow> kwargs \<Rightarrow>
   (exc + pyval) \<times> event list"
where
  "wrapped os env method tracker_func self_tracker method_name args kwargs0 =
     (let customer_id = fst (kwargs_pop ''customer_id'' PEllipsis kwargs0);
          kwargs1 = snd (kwargs_pop ''customer_id'' PEllipsis kwargs0);
          track_usage = fst (kwargs_pop ''track_usage'' (PBool True) kwargs1);
          kwargs2 = snd (kwargs_pop ''track_usage'' (PBool True) kwargs1);
          custom_metadata = fst (kwargs_pop ''metadata'' PNone kwargs2);
          kwargs = snd (kwargs_pop ''metadata'' PNone kwargs2);
          call = (\<lambda>result error_occurred error_type error_code error_message.
            \<lparr>tc_result = result,
             tc_customer_id = customer_id,
             tc_tracker = self_tracker,
             tc_method_name = method_name,
             tc_args = args,
             tc_kwargs = kwargs,
             tc_custom_metadata = custom_metadata,
             tc_request_start_time = PFloat (env_start_time env),
             tc_request_end_time = PFloat (env_end_time env),
             tc_error_occurred = PBool error_occurred,
             tc_error_type = error_type,
             tc_error_code = error_code,
             tc_error_message = error_message,
             tc_request_id = PStr (env_request_id env)\<rparr>);
          track = (\<lambda>c what.
            if truthy os track_usage
            then TrackerCalled c #
                   (case tracker_func c of
                      None \<Rightarrow> []
                    | Some te \<Rightarrow>
                        [Warning (''Failed to track '' @ what @ '' for '' @ method_name @ '': '' @
                           exc_str te)])
            else [])
      in case method args kwargs of
           Inr result \<Rightarrow>
             (Inr result,
              MethodCalled args kwargs # track (call result False PNone PNone PNone) ''usage'')
         | Inl e \<Rightarrow>
             (case exc_code e of
                NoCode \<Rightarrow>
                  (Inl e,
                   MethodCalled args kwargs #
                     track (call PNone True (PStr ''sdk_error'') PNone (PStr (exc_str e)))
                       ''error'')
              | CodeReturns s \<Rightarrow>
                  (Inl e,
                   MethodCalled args kwargs #
                     track (call PNone True (PStr ''grpc_error'') (PStr s) (PStr (exc_str e)))
                       ''error'')
              | CodeNotCallable ty \<Rightarrow>
                  (Inl (Exc ''TypeError'' (quoted ty @ '' object is not callable'') NoCode),
                   [MethodCalled args kwargs])
              | CodeRaises x \<Rightarrow> (Inl x, [MethodCalled args kwargs])))"

text \<open>The calls of the extraction function in a run, in order.\<close>

fun tracker_calls :: "event list \<Rightarrow> track_call list" where
  "tracker_calls [] = []"
| "tracker_calls (TrackerCalled c # es) = c # tracker_calls es"
| "tracker_calls (e # es) = tracker_calls es"

text \<open>The calls of the underlying method in a run: positional and keyword arguments.\<close>

fun method_calls :: "event list \<Rightarrow> (pyval list \<times> kwargs) list" where
  "method_calls [] = []"
| "method_calls (MethodCalled args kwargs # es) = (args, kwargs) # method_calls es"
| "method_calls (e # es) = method_calls es"

fun warnings :: "event list \<Rightarrow> string list" where
  "warnings [] = []"
| "warnings (Warning s # es) = s # warnings es"
| "warnings (e # es) = warnings es"

section \<open>The forwarding proxy\<close>

text \<open>
  The values of an interception table are extraction functions; the table of the module,
  \<^verbatim>\<open>GEMINI_TRACK_METHODS\<close>, names the two above.
\<close>

datatype extraction = TrackGenerateContent | TrackCountTokens | Extraction nat

type_synonym track_methods = "(string \<times> extraction) list"

definition GEMINI_TRACK_METHODS :: track_methods where
  "GEMINI_TRACK_METHODS =
     [(''models.generate_content'', TrackGenerateContent),
      (''models.count_tokens'', TrackCountTokens)]"

text \<open>
  What \<^verbatim>\<open>__getattr__\<close> returns: a member of the client as it is, a child proxy, or a
  wrapper made by \<^verbatim>\<open>_wrap_method\<close>. Proxies and wrappers are objects with an identity:
  they are referred to by their address.
\<close>

datatype handle = Member pyval | ProxyRef addr | WrappedRef addr

record tracked_proxy =
  p_client :: pyval
  p_tracker :: tracker
  p_track_methods :: track_methods
  p_tracked_attributes :: "string \<rightharpoonup> handle"

text \<open>The variables a wrapper closes over: \<^verbatim>\<open>method\<close>, \<^verbatim>\<open>method_name\<close>,
  \<^verbatim>\<open>tracker_func\<close> and \<^verbatim>\<open>self\<close>.\<close>

record wrapped_method =
  w_method :: pyval
  w_method_name :: string
  w_tracker_func :: extraction
  w_self :: addr

text \<open>
  The state: the store of the client's objects, the proxies and the wrappers made so
  far. The address of a proxy or wrapper is its position, so a new one never takes the
  address of an old one.
\<close>

record state =
  heap :: store
  proxies :: "tracked_proxy list"
  wrappers :: "wrapped_method list"

definition py_callable :: "store \<Rightarrow> pyval \<Rightarrow> bool" where
  "py_callable os v =
     (case v of
        PRef a \<Rightarrow> (case os a of None \<Rightarrow> False | Some ob \<Rightarrow> obj_callable ob)
      | _ \<Rightarrow> False)"

definition py_has_dict :: "store \<Rightarrow> pyval \<Rightarrow> bool" where
  "py_has_dict os v =
     (case v of
        PRef a \<Rightarrow> (case os a of None \<Rightarrow> False | Some ob \<Rightarrow> obj_has_dict ob)
      | _ \<Rightarrow> False)"

text \<open>\<^verbatim>\<open>isinstance(v, (str, int, float, bool, type(None)))\<close>.\<close>

definition py_scalar :: "store \<Rightarrow> pyval \<Rightarrow> bool" where
  "py_scalar os v =
     (case v of
        PNone \<Rightarrow> True
      | PBool b \<Rightarrow> True
      | PInt i \<Rightarrow> True
      | PFloat x \<Rightarrow> True
      | PStr s \<Rightarrow> True
      | PRef a \<Rightarrow> (case os a of None \<Rightarrow> False | Some ob \<Rightarrow> obj_scalar ob)
      | _ \<Rightarrow> False)"

text \<open>\<^verbatim>\<open>TrackedProxy.__init__\<close>: the address of the new proxy and the new state.\<close>

definition TrackedProxy_init ::
  "state \<Rightarrow> pyval \<Rightarrow> tracker \<Rightarrow> track_methods option \<Rightarrow> addr \<times> state"
where
  "TrackedProxy_init st client trk tm =
     (length (proxies st),
      st\<lparr>proxies := proxies st @
        [\<lparr>p_client = client,
          p_tracker = trk,
          p_track_methods = (case tm of None \<Rightarrow> [] | Some t \<Rightarrow> t),
          p_tracked_attributes = Map.empty\<rparr>]\<rparr>)"

text \<open>
  The dictionary comprehension of lines 74-78:
  \<^verbatim>\<open>{k[len(name) + 1:]: v for k, v in self._track_methods.items()
     if k.startswith(f"{name}.")}\<close>.
\<close>

definition sub_track_methods :: "string \<Rightarrow> track_methods \<Rightarrow> track_methods" where
  "sub_track_methods name tm =
     map (\<lambda>kv. (drop (length name + 1) (fst kv), snd kv))
       (filter (\<lambda>kv. take (length name + 1) (fst kv) = name @ ''.'') tm)"

text \<open>
  \<^verbatim>\<open>_wrap_method\<close>: \<^verbatim>\<open>self._track_methods[method_name]\<close> raises KeyError for a name
  that is not in the table; otherwise a new wrapper is made. (The wrapper also takes
  over the name, the documentation and the signature of the method.)
\<close>

definition wrap_method :: "state \<Rightarrow> addr \<Rightarrow> pyval \<Rightarrow> string \<Rightarrow> exc + addr \<times> state" where
  "wrap_method st self method method_name =
     (case map_of (p_track_methods (proxies st ! self)) method_name of
        None \<Rightarrow> Inl (Exc ''KeyError'' (quoted method_name) NoCode)
      | Some f \<Rightarrow>
          Inr (length (wrappers st),
               st\<lparr>wrappers := wrappers st @
                 [\<lparr>w_method = method, w_method_name = method_name,
                   w_tracker_func = f, w_self = self\<rparr>]\<rparr>))"

text \<open>\<^verbatim>\<open>self._tracked_attributes[name] = h\<close>.\<close>

definition memoize :: "state \<Rightarrow> addr \<Rightarrow> string \<Rightarrow> handle \<Rightarrow> state" where
  "memoize st self name h =
     st\<lparr>proxies := (proxies st)
       [self := (proxies st ! self)
          \<lparr>p_tracked_attributes := (p_tracked_attributes (proxies st ! self))(name \<mapsto> h)\<rparr>]\<rparr>"

text \<open>
  \<^verbatim>\<open>TrackedProxy.__getattr__\<close> (lines 44-87) on the proxy at address \<open>self\<close>: what the
  access returns or raises, and the new state. Python calls \<^verbatim>\<open>__getattr__\<close> for the
  names that the proxy object does not define itself (its four fields and its methods
  are found without it). An address that holds no proxy is not a call the program can
  make; the model answers it with an error and leaves the state.
\<close>

definition TrackedProxy_getattr :: "state \<Rightarrow> addr \<Rightarrow> string \<Rightarrow> (exc + handle) \<times> state" where
  "TrackedProxy_getattr st self name =
     (if self < length (proxies st) then
        (let p = proxies st ! self in
         case p_tracked_attributes p name of
           Some h \<Rightarrow> (Inr h, st)
         | None \<Rightarrow>
             (case py_getattr (heap st) (p_client p) name of
                None \<Rightarrow>
                  (Inl (Exc ''AttributeError''
                     (quoted (py_type_name (heap st) (p_client p)) @
                        '' object has no attribute '' @ quoted name) NoCode), st)
              | Some attr \<Rightarrow>
                  if py_callable (heap st) attr \<and> map_of (p_track_methods p) name \<noteq> None then
                    (case wrap_method st self attr name of
                       Inl e \<Rightarrow> (Inl e, st)
                     | Inr (w, st') \<Rightarrow> (Inr (WrappedRef w), memoize st' self name (WrappedRef w)))
                  else if py_has_dict (heap st) attr \<and> \<not> py_scalar (heap st) attr \<and>
                          sub_track_methods name (p_track_methods p) \<noteq> [] then
                    (case TrackedProxy_init st attr (p_tracker p)
                            (Some (sub_track_methods name (p_track_methods p))) of
                       (c, st') \<Rightarrow> (Inr (ProxyRef c), memoize st' self name (ProxyRef c)))
                  else (Inr (Member attr), memoize st self name (Member attr))))
      else (Inl (Exc ''ReferenceError'' ''no such proxy'' NoCode), st))"

text \<open>
  A call of the wrapper at address \<open>w\<close>. \<open>impl v\<close> is what calling the client's member
  \<open>v\<close> does, \<open>raises f\<close> says when the extraction function \<open>f\<close> raises.
\<close>

definition call_wrapped ::
  "(pyval \<Rightarrow> pyval list \<Rightarrow> kwargs \<Rightarrow> exc + pyval) \<Rightarrow> (extraction \<Rightarrow> track_call \<Rightarrow> exc option) \<Rightarrow>
   call_env \<Rightarrow> state \<Rightarrow> addr \<Rightarrow> pyval list \<Rightarrow> kwargs \<Rightarrow> (exc + pyval) \<times> event list"
where
  "call_wrapped impl raises env st w args kwargs =
     (if w < length (wrappers st) \<and> w_self (wrappers st ! w) < length (proxies st) then
        (let wm = wrappers st ! w in
         wrapped (heap st) env (impl (w_method wm)) (raises (w_tracker_func wm))
           (p_tracker (proxies st ! w_self wm)) (w_method_name wm) args kwargs)
      else (Inl (Exc ''ReferenceError'' ''no such wrapper'' NoCode), []))"

text \<open>
  The chained access \<^verbatim>\<open>h.n1.n2. ... .nk\<close>: through \<^verbatim>\<open>__getattr__\<close> on a proxy, by
  \<^verbatim>\<open>getattr\<close> on a member of the client. A wrapper is a function; the members of
  functions are not modelled.
\<close>

fun access_path :: "state \<Rightarrow> handle \<Rightarrow> string list \<Rightarrow> (exc + handle) \<times> state" where
  "access_path st h [] = (Inr h, st)"
| "access_path st (ProxyRef p) (n # ns) =
     (case TrackedProxy_getattr st p n of
        (Inl e, st') \<Rightarrow> (Inl e, st')
      | (Inr h, st') \<Rightarrow> access_path st' h ns)"
| "access_path st (Member v) (n # ns) =
     (case py_getattr (heap st) v n of
        None \<Rightarrow>
          (Inl (Exc ''AttributeError''
             (quoted (py_type_name (heap st) v) @ '' object has no attribute '' @ quoted n)
             NoCode), st)
      | Some x \<Rightarrow> access_path st (Member x) ns)"
| "access_path st (WrappedRef w) (n # ns) =
     (Inl (Exc ''AttributeError''
        (quoted ''function'' @ '' object has no attribute '' @ quoted n) NoCode), st)"

text \<open>
  What else happens to the state during the lifetime of a proxy: code outside the proxy
  sets or deletes a member of an object of the client (monkey-patching), or accesses a
  member through some proxy.
\<close>

definition set_member :: "state \<Rightarrow> addr \<Rightarrow> string \<Rightarrow> pyval \<Rightarrow> state" where
  "set_member st a name v =
     (case heap st a of
        None \<Rightarrow> st
      | Some ob \<Rightarrow> st\<lparr>heap := (heap st)(a \<mapsto> ob\<lparr>obj_attrs := dict_set (obj_attrs ob) name v\<rparr>)\<rparr>)"

definition del_member :: "state \<Rightarrow> addr \<Rightarrow> string \<Rightarrow> state" where
  "del_member st a name =
     (case heap st a of
        None \<Rightarrow> st
      | Some ob \<Rightarrow>
          st\<lparr>heap := (heap st)
            (a \<mapsto> ob\<lparr>obj_attrs := filter (\<lambda>kv. fst kv \<noteq> name) (obj_attrs ob)\<rparr>)\<rparr>)"

datatype action =
    Access addr string
  | SetMember addr string pyval
  | DelMember addr string

fun step :: "state \<Rightarrow> action \<Rightarrow> state" where
  "step st (Access p name) = snd (TrackedProxy_getattr st p name)"
| "step st (SetMember a name v) = set_member st a name v"
| "step st (DelMember a name) = del_member st a name"

definition run :: "state \<Rightarrow> action list \<Rightarrow> state" where
  "run st acts = foldl step st acts"

section \<open>Derived notions and the fixtures of the tests\<close>

text \<open>
  The keyword arguments that are left after the three \<^verbatim>\<open>kwargs.pop\<close> of the wrapper,
  and the truth value of \<^verbatim>\<open>track_usage\<close> after \<^verbatim>\<open>kwargs.pop("track_usage", True)\<close>.
\<close>

definition forwarded_kwargs :: "kwargs \<Rightarrow> kwargs" where
  "forwarded_kwargs kwargs =
     filter (\<lambda>kv. fst kv \<notin> {''customer_id'', ''track_usage'', ''metadata''}) kwargs"

definition tracking_enabled :: "store \<Rightarrow> kwargs \<Rightarrow> bool" where
  "tracking_enabled os kwargs = truthy os (kwargs_get kwargs ''track_usage'' (PBool True))"

text \<open>
  The objects of \<^verbatim>\<open>tests/test_proxy.py\<close>: \<^verbatim>\<open>mock_gemini_response\<close> (address 1) with its
  candidate (2) and usage metadata (3), the response of
  \<^verbatim>\<open>test_track_generate_content_no_usage_info\<close>, a Mock whose \<^verbatim>\<open>usage_metadata\<close> was
  deleted (4), and \<^verbatim>\<open>mock_count_tokens_response\<close> (5). A Mock is callable and has a
  \<^verbatim>\<open>__dict__\<close>.
\<close>

definition mock :: "kwargs \<Rightarrow> pyobject" where
  "mock attrs =
     \<lparr>obj_type = ''Mock'', obj_attrs = attrs, obj_truthy = True, obj_callable = True,
      obj_has_dict = True, obj_scalar = False\<rparr>"

definition mock_objects :: store where
  "mock_objects =
     [1 \<mapsto> mock [(''id'', PStr ''resp_123''), (''model_version'', PStr ''001''),
                  (''safety_ratings'', PNone),
                  (''text'', PStr ''Hello! How can I help you today?''),
                  (''candidates'', PList [PRef 2]), (''usage_metadata'', PRef 3)],
      2 \<mapsto> mock [(''finish_reason'', PStr ''STOP'')],
      3 \<mapsto> mock [(''prompt_token_count'', PInt 15), (''candidates_token_count'', PInt 25),
                  (''total_token_count'', PInt 40)],
      4 \<mapsto> mock [(''text'', PStr ''Hello'')],
      5 \<mapsto> mock [(''total_tokens'', PInt 15)]]"

text \<open>
  A result that is false and has the member \<^verbatim>\<open>total_tokens\<close>: an object of a class
  that defines \<^verbatim>\<open>__len__\<close> (a container of per-part counts, say) and is empty.
\<close>

definition falsy_result_objects :: store where
  "falsy_result_objects =
     [6 \<mapsto> \<lparr>obj_type = ''CountResult'', obj_attrs = [(''total_tokens'', PInt 15)],
             obj_truthy = False, obj_callable = False, obj_has_dict = True,
             obj_scalar = False\<rparr>]"

text \<open>
  A direct call of an extraction function as the tests make it: customer
  \<^verbatim>\<open>"customer-123"\<close>, no positional arguments, every optional argument left at
  \<^verbatim>\<open>None\<close>.
\<close>

definition direct_call :: "pyval \<Rightarrow> kwargs \<Rightarrow> track_call" where
  "direct_call result kwargs =
     \<lparr>tc_result = result, tc_customer_id = PStr ''customer-123'', tc_tracker = 0,
      tc_method_name = ''models.generate_content'', tc_args = [], tc_kwargs = kwargs,
      tc_custom_metadata = PNone, tc_request_start_time = PNone,
      tc_request_end_time = PNone, tc_error_occurred = PNone, tc_error_type = PNone,
      tc_error_code = PNone, tc_error_message = PNone, tc_request_id = PNone\<rparr>"

text \<open>A tracker whose \<^verbatim>\<open>track_usage_background\<close> never raises.\<close>

definition quiet_sink :: "tracker \<Rightarrow> usage_event \<Rightarrow> exc option" where
  "quiet_sink t ev = None"

text \<open>
  An error that keeps a status in an integer member \<^verbatim>\<open>code\<close>, as
  \<^verbatim>\<open>google.genai.errors.APIError\<close> and \<^verbatim>\<open>urllib.error.HTTPError\<close> do.
\<close>

definition api_error :: exc where
  "api_error = Exc ''ClientError'' ''404 NOT_FOUND'' (CodeNotCallable ''int'')"

definition test_env :: call_env where
  "test_env = \<lparr>env_request_id = ''req_xyz'', env_start_time = 1, env_end_time = 2\<rparr>"

text \<open>
  The dotted key of a path of member names, \<^verbatim>\<open>".".join(path)\<close>, and the member of the
  client that the path leads to, \<^verbatim>\<open>client.n1.n2. ... .nk\<close>.
\<close>

fun dotted :: "string list \<Rightarrow> string" where
  "dotted [] = []"
| "dotted [n] = n"
| "dotted (n # ns) = n @ ''.'' @ dotted ns"

fun target_path :: "store \<Rightarrow> pyval \<Rightarrow> string list \<Rightarrow> pyval option" where
  "target_path os v [] = Some v"
| "target_path os v (n # ns) =
     (case py_getattr os v n of None \<Rightarrow> None | Some x \<Rightarrow> target_path os x ns)"

text \<open>
  A member of the client that \<^verbatim>\<open>__getattr__\<close> proxies as a namespace when keys of the
  table lie below it: it has a \<^verbatim>\<open>__dict__\<close>, is no scalar, and is not at the same time
  callable and itself a key of the table (line 63 comes first).
\<close>

definition namespace_member :: "store \<Rightarrow> track_methods \<Rightarrow> pyval \<Rightarrow> string list \<Rightarrow> bool" where
  "namespace_member os tm client pre =
     (case target_path os client pre of
        None \<Rightarrow> False
      | Some ob \<Rightarrow>
          py_has_dict os ob \<and> \<not> py_scalar os ob \<and>
          \<not> (py_callable os ob \<and> map_of tm (dotted pre) \<noteq> None))"

text \<open>
  The memo entries along a path are current: where a name of the path is memoized, the
  entry is the handle that \<^verbatim>\<open>__getattr__\<close> makes for the member the target has now.
  For a name before the last that is a child proxy of that member with the table of the
  suffixes, for the last name a wrapper of that member with the extraction function of
  the table. A name that is not memoized asks for nothing.
\<close>

fun memo_current :: "state \<Rightarrow> addr \<Rightarrow> string list \<Rightarrow> bool" where
  "memo_current st p [] = True"
| "memo_current st p (n # ns) =
     (case p_tracked_attributes (proxies st ! p) n of
        None \<Rightarrow> True
      | Some h \<Rightarrow>
          (case py_getattr (heap st) (p_client (proxies st ! p)) n of
             None \<Rightarrow> False
           | Some attr \<Rightarrow>
               (case h of
                  Member v \<Rightarrow> False
                | ProxyRef c \<Rightarrow>
                    ns \<noteq> [] \<and> c < length (proxies st) \<and>
                    p_client (proxies st ! c) = attr \<and>
                    p_track_methods (proxies st ! c) =
                      sub_track_methods n (p_track_methods (proxies st ! p)) \<and>
                    memo_current st c ns
                | WrappedRef w \<Rightarrow>
                    ns = [] \<and> w < length (wrappers st) \<and>
                    w_method (wrappers st ! w) = attr \<and>
                    map_of (p_track_methods (proxies st ! p)) n =
                      Some (w_tracker_func (wrappers st ! w)) \<and>
                    w_self (wrappers st ! w) < length (proxies st))))"

text \<open>
  A client in the shape of the Google Gen AI client: the client (address 10) with the
  namespace \<^verbatim>\<open>models\<close> (11) and a string member, and the two methods of the namespace
  (12, 13). The proxy for it, with the table of the module, is at address 0.
\<close>

definition plain_object :: "string \<Rightarrow> kwargs \<Rightarrow> pyobject" where
  "plain_object ty attrs =
     \<lparr>obj_type = ty, obj_attrs = attrs, obj_truthy = True, obj_callable = False,
      obj_has_dict = True, obj_scalar = False\<rparr>"

definition bound_method :: pyobject where
  "bound_method =
     \<lparr>obj_type = ''method'', obj_attrs = [], obj_truthy = True, obj_callable = True,
      obj_has_dict = True, obj_scalar = False\<rparr>"

definition gemini_objects :: store where
  "gemini_objects =
     [10 \<mapsto> plain_object ''Client'' [(''models'', PRef 11), (''api_version'', PStr ''v1'')],
      11 \<mapsto> plain_object ''Models'' [(''generate_content'', PRef 12), (''count_tokens'', PRef 13)],
      12 \<mapsto> bound_method,
      13 \<mapsto> bound_method]"

definition gemini_proxy :: state where
  "gemini_proxy =
     snd (TrackedProxy_init \<lparr>heap = gemini_objects, proxies = [], wrappers = []\<rparr> (PRef 10) 0
            (Some GEMINI_TRACK_METHODS))"

text \<open>The proxy of the Gemini client after \<^verbatim>\<open>proxy.models.count_tokens\<close> was accessed.\<close>

definition used_gemini_proxy :: state where
  "used_gemini_proxy = run gemini_proxy [Access 0 ''models'', Access 1 ''count_tokens'']"

text \<open>
  A table in which a name is a key and the prefix of a key at once, over a client whose
  members are Mocks (callable, with a \<^verbatim>\<open>__dict__\<close>): the client (20), its member
  \<^verbatim>\<open>outer\<close> (21) and the member \<^verbatim>\<open>op\<close> of that (22).
\<close>

definition overlapping_proxy :: state where
  "overlapping_proxy =
     snd (TrackedProxy_init
            \<lparr>heap = [20 \<mapsto> mock [(''outer'', PRef 21)],
                     21 \<mapsto> mock [(''op'', PRef 22)],
                     22 \<mapsto> mock []],
             proxies = [], wrappers = []\<rparr>
            (PRef 20) 0 (Some [(''outer'', Extraction 1), (''outer.op'', Extraction 2)]))"

text \<open>
  A namespace without \<^verbatim>\<open>__dict__\<close> (its class declares \<^verbatim>\<open>__slots__\<close>): the client
  (40), its member \<^verbatim>\<open>outer\<close> (41) and the method \<^verbatim>\<open>op\<close> of that (42).
\<close>

definition slotted_proxy :: state where
  "slotted_proxy =
     snd (TrackedProxy_init
            \<lparr>heap = [40 \<mapsto> plain_object ''Client'' [(''outer'', PRef 41)],
                     41 \<mapsto> (plain_object ''Outer'' [(''op'', PRef 42)])
                            \<lparr>obj_has_dict := False\<rparr>,
                     42 \<mapsto> bound_method],
             proxies = [], wrappers = []\<rparr>
            (PRef 40) 0 (Some [(''outer.op'', Extraction 1)]))"

text \<open>
  A member that is replaced after it was memoized: the client (30) has the integer member
  \<^verbatim>\<open>outer\<close>, which is accessed through the proxy; then \<^verbatim>\<open>outer\<close> is set to a
  namespace (31) with the method \<^verbatim>\<open>op\<close> (32).
\<close>

definition replaced_member_proxy :: state where
  "replaced_member_proxy =
     run (snd (TrackedProxy_init
            \<lparr>heap = [30 \<mapsto> plain_object ''Client'' [(''outer'', PInt 5)],
                     31 \<mapsto> plain_object ''Outer'' [(''op'', PRef 32)],
                     32 \<mapsto> bound_method],
             proxies = [], wrappers = []\<rparr>
            (PRef 30) 0 (Some [(''outer.op'', Extraction 1)])))
       [Access 0 ''outer'', SetMember 30 ''outer'' (PRef 31)]"

section \<open>Properties of the extraction functions\<close>

lemma model_of_kwargs_string:
  assumes "map_of kwargs ''model'' = Some (PStr s)"
  shows "(\<forall>x. s = ''models/'' @ x \<longrightarrow> model_of_kwargs kwargs = PStr x) \<and>
         (\<not> prefix ''models/'' s \<longrightarrow> model_of_kwargs kwargs = PStr s)"
proof -
  have stripped: "model_of_kwargs kwargs = PStr x" if "s = ''models/'' @ x" for x
    using assms that by (simp add: model_of_kwargs_def kwargs_get_def)
  have "prefix ''models/'' s" if "take 7 s = ''models/''"
    using that by (metis take_is_prefix)
  then have kept: "\<not> prefix ''models/'' s \<Longrightarrow> model_of_kwargs kwargs = PStr s"
    using assms by (auto simp add: model_of_kwargs_def kwargs_get_def)
  show ?thesis using stripped kept by blast
qed

lemma generate_event_model:
  "generate_event os c cid = Inr ev \<Longrightarrow> ue_model ev = model_of_kwargs (tc_kwargs c)"
  by (auto simp: generate_event_def Let_def split: sum.splits if_splits option.splits prod.splits)

lemma count_tokens_event_model:
  "count_tokens_event os c cid = Inr ev \<Longrightarrow> ue_model ev = model_of_kwargs (tc_kwargs c)"
  by (auto simp: count_tokens_event_def Let_def split: sum.splits if_splits)

lemma emitted_generate:
  "ev \<in> set (emitted (track_generate_content resolve sink os c)) \<Longrightarrow>
   generate_event os c (resolve (tc_customer_id c)) = Inr ev"
  by (auto simp: track_generate_content_def Let_def split: sum.splits if_splits option.splits)

lemma emitted_count_tokens:
  "ev \<in> set (emitted (track_count_tokens resolve sink os c)) \<Longrightarrow>
   count_tokens_event os c (resolve (tc_customer_id c)) = Inr ev"
  by (auto simp: track_count_tokens_def Let_def split: sum.splits if_splits option.splits)

text \<open>
  When the customer id resolves and the metadata override is false or a dictionary,
  \<^verbatim>\<open>track_count_tokens\<close> emits exactly one event; \<^verbatim>\<open>track_generate_content\<close> does
  so when, in addition, the expression for the finish reason raises nothing.
\<close>

lemma count_tokens_emits_one:
  assumes "truthy os (resolve (tc_customer_id c))"
      and "\<not> truthy os (tc_custom_metadata c) \<or> (\<exists>kvs. tc_custom_metadata c = PDict kvs)"
  shows "\<exists>ev. emitted (track_count_tokens resolve sink os c) = [ev]"
  using assms
  by (auto simp: track_count_tokens_def count_tokens_event_def update_with_def Let_def
      split: option.splits)

lemma generate_emits_one:
  assumes "truthy os (resolve (tc_customer_id c))"
      and "\<not> truthy os (tc_custom_metadata c) \<or> (\<exists>kvs. tc_custom_metadata c = PDict kvs)"
      and "\<not> isl (finish_reason_of os (tc_result c))"
  shows "\<exists>ev. emitted (track_generate_content resolve sink os c) = [ev]"
proof -
  obtain fr where "finish_reason_of os (tc_result c) = Inr fr"
    using assms(3) by (cases "finish_reason_of os (tc_result c)") auto
  then show ?thesis
    using assms(1,2)
    by (auto simp: track_generate_content_def generate_event_def update_with_def Let_def
        split: option.splits)
qed

text \<open>
  A sequence of pairs as metadata override is merged like a dictionary, and the event is
  emitted with it; a string raises ValueError.
\<close>

lemma update_with_pairs:
  "update_with os [(PStr ''operation'', PStr ''count_tokens'')]
     (PList [PTuple [PStr ''team'', PStr ''a''], PList [PStr ''operation'', PStr ''x'']]) =
   Inr [(PStr ''operation'', PStr ''x''), (PStr ''team'', PStr ''a'')]"
  by (simp add: update_with_def)

lemma count_tokens_pairs_metadata:
  "map ue_metadata
     (emitted (track_count_tokens (get_effective_customer_id PNone) quiet_sink mock_objects
        ((direct_call (PRef 5) [])
           \<lparr>tc_custom_metadata := PList [PTuple [PStr ''team'', PStr ''a'']]\<rparr>))) =
   [[(PStr ''operation'', PStr ''count_tokens''), (PStr ''total_tokens'', PInt 15),
     (PStr ''team'', PStr ''a'')]]"
  by (simp add: mock_objects_def mock_def direct_call_def quiet_sink_def
      track_count_tokens_def count_tokens_event_def get_effective_customer_id_def
      update_with_def model_of_kwargs_def kwargs_get_def Let_def)

lemma show_nat_digit: "n < 10 \<Longrightarrow> show_nat n = [''0123456789'' ! n]"
  by (simp add: show_nat.simps [of n])

lemma update_with_string:
  "update_with os d (PStr ''abc'') =
   Inl (Exc ''ValueError''
     ''dictionary update sequence element #0 has length 1; 2 is required'' NoCode)"
  by (simp add: update_with_def length_error_def show_nat_digit)

text \<open>
  With the member \<^verbatim>\<open>usage_metadata\<close> present on a result that is true, every event
  emitted carries its two counts (zero for a count that is missing); the response of
  \<^verbatim>\<open>test_track_generate_content_success\<close> gives one event with 15 and 25.
\<close>

lemma generate_event_quantities:
  assumes "truthy os (tc_result c)"
      and "py_getattr os (tc_result c) ''usage_metadata'' = Some um"
      and "ev \<in> set (emitted (track_generate_content resolve sink os c))"
  shows "ue_input_tokens ev = py_getattr_default os um ''prompt_token_count'' (PInt 0) \<and>
         ue_output_tokens ev = py_getattr_default os um ''candidates_token_count'' (PInt 0)"
  using emitted_generate [OF assms(3)] assms(1,2)
  by (auto simp: generate_event_def Let_def split: sum.splits if_splits)

lemma generate_mock_response:
  "emitted (track_generate_content (get_effective_customer_id PNone) quiet_sink mock_objects
      (direct_call (PRef 1) [(''model'', PStr ''gemini-2.5-flash'')])) =
   [\<lparr>ue_customer_id = PStr ''customer-123'', ue_model = PStr ''gemini-2.5-flash'',
     ue_input_tokens = PInt 15, ue_output_tokens = PInt 25, ue_provider = ''google'',
     ue_metadata = [(PStr ''response_id'', PStr ''resp_123''), (PStr ''safety_ratings'', PNone),
                    (PStr ''finish_reason'', PStr ''STOP'')],
     ue_request_start_time = PNone, ue_request_end_time = PNone, ue_error_occurred = PNone,
     ue_error_type = PNone, ue_error_code = PNone, ue_error_message = PNone,
     ue_request_id = PNone\<rparr>]"
  by (simp add: mock_objects_def mock_def direct_call_def quiet_sink_def
      track_generate_content_def generate_event_def get_effective_customer_id_def
      finish_reason_of_def py_getattr_default_def model_of_kwargs_def kwargs_get_def Let_def)

text \<open>
  Claim C2 says that \<^verbatim>\<open>track_generate_content\<close> emits no usage event for a result
  without the member \<^verbatim>\<open>usage_metadata\<close>, and
  \<^verbatim>\<open>test_track_generate_content_no_usage_info\<close> asserts it. The code calls
  \<^verbatim>\<open>tracker.track_usage_background\<close> after the \<^verbatim>\<open>if\<close>, not inside it: on the input
  of that test (a response without \<^verbatim>\<open>usage_metadata\<close>, customer \<^verbatim>\<open>"customer-123"\<close>,
  no keyword arguments) it emits one event, with both quantities zero.
\<close>

theorem generate_without_usage_metadata_emits_zero:
  "\<not> py_hasattr mock_objects (PRef 4) ''usage_metadata'' \<and>
   map (\<lambda>ev. (ue_customer_id ev, ue_model ev, ue_input_tokens ev, ue_output_tokens ev))
     (emitted (track_generate_content (get_effective_customer_id PNone) quiet_sink mock_objects
        (direct_call (PRef 4) []))) =
   [(PStr ''customer-123'', PStr ''unknown'', PInt 0, PInt 0)]"
  by (simp add: py_hasattr_def mock_objects_def mock_def direct_call_def quiet_sink_def
      track_generate_content_def generate_event_def get_effective_customer_id_def
      model_of_kwargs_def kwargs_get_def Let_def)

text \<open>
  Claim C9: let the keyword argument \<^verbatim>\<open>model\<close> be a string \<open>s\<close>, and let \<open>m\<close> be
  \<open>s\<close> without its prefix \<^verbatim>\<open>"models/"\<close> if \<open>s\<close> begins with it, and \<open>s\<close> itself if
  it does not. Then every usage event that \<^verbatim>\<open>track_generate_content\<close> or
  \<^verbatim>\<open>track_count_tokens\<close> emits has the model \<open>m\<close>; and each of the two does emit one
  event, with the model \<open>m\<close>, whenever the customer id resolves and the metadata override
  is false or a dictionary (for \<^verbatim>\<open>track_generate_content\<close>: and the expression for the
  finish reason raises nothing).
\<close>

theorem model_prefix_stripped:
  assumes "map_of (tc_kwargs c) ''model'' = Some (PStr s)"
      and "s = ''models/'' @ m \<or> \<not> prefix ''models/'' s \<and> m = s"
  shows "(\<forall>ev \<in> set (emitted (track_generate_content resolve sink os c)) \<union>
                set (emitted (track_count_tokens resolve sink os c)). ue_model ev = PStr m) \<and>
         (truthy os (resolve (tc_customer_id c)) \<and>
          (\<not> truthy os (tc_custom_metadata c) \<or> (\<exists>kvs. tc_custom_metadata c = PDict kvs)) \<longrightarrow>
            map ue_model (emitted (track_count_tokens resolve sink os c)) = [PStr m] \<and>
            (\<not> isl (finish_reason_of os (tc_result c)) \<longrightarrow>
               map ue_model (emitted (track_generate_content resolve sink os c)) = [PStr m]))"
proof -
  have m: "model_of_kwargs (tc_kwargs c) = PStr m"
    using model_of_kwargs_string [OF assms(1)] assms(2) by blast
  have every: "ue_model ev = PStr m"
    if "ev \<in> set (emitted (track_generate_content resolve sink os c)) \<union>
             set (emitted (track_count_tokens resolve sink os c))" for ev
    using that m
    by (auto dest: emitted_generate emitted_count_tokens
        simp: generate_event_model count_tokens_event_model)
  have cnt: "map ue_model (emitted (track_count_tokens resolve sink os c)) = [PStr m]"
    if "truthy os (resolve (tc_customer_id c))"
      "\<not> truthy os (tc_custom_metadata c) \<or> (\<exists>kvs. tc_custom_metadata c = PDict kvs)"
  proof -
    from count_tokens_emits_one [where resolve = resolve and os = os and c = c, OF that]
    obtain ev
      where "emitted (track_count_tokens resolve sink os c) = [ev]" by blast
    with every [of ev] show ?thesis by simp
  qed
  have gen: "map ue_model (emitted (track_generate_content resolve sink os c)) = [PStr m]"
    if "truthy os (resolve (tc_customer_id c))"
      "\<not> truthy os (tc_custom_metadata c) \<or> (\<exists>kvs. tc_custom_metadata c = PDict kvs)"
      "\<not> isl (finish_reason_of os (tc_result c))"
  proof -
    from generate_emits_one [where resolve = resolve and os = os and c = c, OF that]
    obtain ev
      where "emitted (track_generate_content resolve sink os c) = [ev]" by blast
    with every [of ev] show ?thesis by simp
  qed
  show ?thesis using every cnt gen by blast
qed

text \<open>
  The model \<^verbatim>\<open>"models/gemini-2.5-flash"\<close> with the responses of the tests: both
  functions emit one event with the model \<^verbatim>\<open>"gemini-2.5-flash"\<close>; and so they do for
  the model \<^verbatim>\<open>"gemini-2.5-flash"\<close> itself.
\<close>

theorem model_prefix_stripped_witness:
  "map ue_model (emitted (track_count_tokens (get_effective_customer_id PNone) quiet_sink
      mock_objects (direct_call (PRef 5) [(''model'', PStr ''models/gemini-2.5-flash'')]))) =
     [PStr ''gemini-2.5-flash''] \<and>
   map ue_model (emitted (track_generate_content (get_effective_customer_id PNone) quiet_sink
      mock_objects (direct_call (PRef 1) [(''model'', PStr ''models/gemini-2.5-flash'')]))) =
     [PStr ''gemini-2.5-flash''] \<and>
   map ue_model (emitted (track_count_tokens (get_effective_customer_id PNone) quiet_sink
      mock_objects (direct_call (PRef 5) [(''model'', PStr ''gemini-2.5-flash'')]))) =
     [PStr ''gemini-2.5-flash''] \<and>
   map ue_model (emitted (track_generate_content (get_effective_customer_id PNone) quiet_sink
      mock_objects (direct_call (PRef 1) [(''model'', PStr ''gemini-2.5-flash'')]))) =
     [PStr ''gemini-2.5-flash'']"
proof -
  let ?r = "get_effective_customer_id PNone"
  let ?p = "[(''model'', PStr ''models/gemini-2.5-flash'')]"
  let ?u = "[(''model'', PStr ''gemini-2.5-flash'')]"
  have k: "map_of (tc_kwargs (direct_call v ?p)) ''model'' = Some (PStr ''models/gemini-2.5-flash'')"
    "map_of (tc_kwargs (direct_call v ?u)) ''model'' = Some (PStr ''gemini-2.5-flash'')" for v
    by (simp_all add: direct_call_def)
  have m: "''models/gemini-2.5-flash'' = ''models/'' @ ''gemini-2.5-flash'' \<or>
           \<not> prefix ''models/'' ''models/gemini-2.5-flash'' \<and>
           ''gemini-2.5-flash'' = ''models/gemini-2.5-flash''"
    "''gemini-2.5-flash'' = ''models/'' @ ''gemini-2.5-flash'' \<or>
     \<not> prefix ''models/'' ''gemini-2.5-flash'' \<and> ''gemini-2.5-flash'' = ''gemini-2.5-flash''"
    by simp_all
  have c: "truthy mock_objects (?r (tc_customer_id (direct_call v kw)))"
    "\<not> truthy mock_objects (tc_custom_metadata (direct_call v kw))" for v kw
    by (simp_all add: direct_call_def get_effective_customer_id_def)
  have f: "\<not> isl (finish_reason_of mock_objects (tc_result (direct_call (PRef 1) kw)))"
    "\<not> isl (finish_reason_of mock_objects (tc_result (direct_call (PRef 5) kw)))" for kw
    by (simp_all add: direct_call_def finish_reason_of_def mock_objects_def mock_def)
  show ?thesis
    using
      model_prefix_stripped [where c = "direct_call (PRef 5) ?p" and resolve = ?r and
        sink = quiet_sink and os = mock_objects, OF k(1) m(1)]
      model_prefix_stripped [where c = "direct_call (PRef 1) ?p" and resolve = ?r and
        sink = quiet_sink and os = mock_objects, OF k(1) m(1)]
      model_prefix_stripped [where c = "direct_call (PRef 5) ?u" and resolve = ?r and
        sink = quiet_sink and os = mock_objects, OF k(2) m(2)]
      model_prefix_stripped [where c = "direct_call (PRef 1) ?u" and resolve = ?r and
        sink = quiet_sink and os = mock_objects, OF k(2) m(2)]
      c f
    by blast
qed

text \<open>
  Claim C10, amended: when \<^verbatim>\<open>track_count_tokens\<close> resolves a customer id, every usage
  event it emits has output quantity zero, and its input quantity is the member
  \<^verbatim>\<open>total_tokens\<close> of the result when the result is true and has that member, and zero
  otherwise (a result that is false, as the result \<^verbatim>\<open>None\<close> of the failure path, or a
  result without the member). It emits exactly one event when the metadata override is
  false or a dictionary.
\<close>

theorem count_tokens_quantities:
  assumes "truthy os (resolve (tc_customer_id c))"
  shows "(\<forall>ev \<in> set (emitted (track_count_tokens resolve sink os c)).
            ue_output_tokens ev = PInt 0 \<and>
            ue_input_tokens ev =
              (if truthy os (tc_result c)
               then (case py_getattr os (tc_result c) ''total_tokens'' of
                       None \<Rightarrow> PInt 0 | Some t \<Rightarrow> t)
               else PInt 0)) \<and>
         (\<not> truthy os (tc_custom_metadata c) \<or> (\<exists>kvs. tc_custom_metadata c = PDict kvs) \<longrightarrow>
            length (emitted (track_count_tokens resolve sink os c)) = 1)"
proof -
  have q: "ue_output_tokens ev = PInt 0 \<and>
           ue_input_tokens ev =
             (if truthy os (tc_result c)
              then (case py_getattr os (tc_result c) ''total_tokens'' of
                      None \<Rightarrow> PInt 0 | Some t \<Rightarrow> t)
              else PInt 0)"
    if "count_tokens_event os c cid = Inr ev" for ev cid
    using that
    by (auto simp: count_tokens_event_def Let_def split: sum.splits if_splits option.splits)
  have one: "length (emitted (track_count_tokens resolve sink os c)) = 1"
    if "\<not> truthy os (tc_custom_metadata c) \<or> (\<exists>kvs. tc_custom_metadata c = PDict kvs)"
    using count_tokens_emits_one
        [where resolve = resolve and os = os and c = c and sink = sink, OF assms that]
    by auto
  show ?thesis using q one by (blast dest: emitted_count_tokens)
qed

text \<open>
  The response of \<^verbatim>\<open>test_track_count_tokens_success\<close> (15 tokens), and the result
  \<^verbatim>\<open>None\<close>.
\<close>

theorem count_tokens_quantities_witness:
  "map (\<lambda>ev. (ue_input_tokens ev, ue_output_tokens ev))
     (emitted (track_count_tokens (get_effective_customer_id PNone) quiet_sink mock_objects
        (direct_call (PRef 5) [(''model'', PStr ''gemini-2.5-flash'')]))) = [(PInt 15, PInt 0)] \<and>
   map (\<lambda>ev. (ue_input_tokens ev, ue_output_tokens ev))
     (emitted (track_count_tokens (get_effective_customer_id PNone) quiet_sink mock_objects
        (direct_call PNone [(''model'', PStr ''gemini-2.5-flash'')]))) = [(PInt 0, PInt 0)]"
proof -
  let ?r = "get_effective_customer_id PNone"
  let ?c = "direct_call (PRef 5) [(''model'', PStr ''gemini-2.5-flash'')]"
  let ?d = "direct_call PNone [(''model'', PStr ''gemini-2.5-flash'')]"
  have r: "truthy mock_objects (?r (tc_customer_id ?c))"
    "truthy mock_objects (?r (tc_customer_id ?d))"
    by (simp_all add: get_effective_customer_id_def direct_call_def)
  have m: "\<not> truthy mock_objects (tc_custom_metadata ?c)"
    "\<not> truthy mock_objects (tc_custom_metadata ?d)"
    by (simp_all add: direct_call_def)
  have g: "truthy mock_objects (tc_result ?c)"
    "py_getattr mock_objects (tc_result ?c) ''total_tokens'' = Some (PInt 15)"
    "\<not> truthy mock_objects (tc_result ?d)"
    by (simp_all add: direct_call_def mock_objects_def mock_def)
  have a: "map (\<lambda>ev. (ue_input_tokens ev, ue_output_tokens ev)) xs = [(i, PInt 0)]"
    if "length xs = 1" "\<forall>ev \<in> set xs. ue_output_tokens ev = PInt 0 \<and> ue_input_tokens ev = i"
    for xs :: "usage_event list" and i
    using that by (cases xs) auto
  show ?thesis
    using count_tokens_quantities
        [where resolve = ?r and c = ?c and sink = quiet_sink and os = mock_objects, OF r(1)]
      count_tokens_quantities
        [where resolve = ?r and c = ?d and sink = quiet_sink and os = mock_objects, OF r(2)] m g
    by (auto intro!: a)
qed

text \<open>
  Claim C10 as stated gives the member \<^verbatim>\<open>total_tokens\<close> as input quantity whenever the
  result has it. The guard of line 293 is \<^verbatim>\<open>if result and hasattr(...)\<close>: for a result
  that is false and has the member with the value 15, the event emitted has input
  quantity zero.
\<close>

theorem falsy_result_counts_zero:
  "py_getattr falsy_result_objects (PRef 6) ''total_tokens'' = Some (PInt 15) \<and>
   map (\<lambda>ev. (ue_input_tokens ev, ue_output_tokens ev))
     (emitted (track_count_tokens (get_effective_customer_id PNone) quiet_sink
        falsy_result_objects (direct_call (PRef 6) [(''model'', PStr ''gemini-2.5-flash'')]))) =
     [(PInt 0, PInt 0)]"
  by (simp add: falsy_result_objects_def direct_call_def quiet_sink_def
      track_count_tokens_def count_tokens_event_def get_effective_customer_id_def Let_def)

section \<open>Properties of the per-call interceptor\<close>

lemma kwargs_pop_thrice:
  "snd (kwargs_pop ''metadata'' d3 (snd (kwargs_pop ''track_usage'' d2
     (snd (kwargs_pop ''customer_id'' d1 kwargs))))) = forwarded_kwargs kwargs"
  by (induction kwargs) (auto simp: kwargs_pop_def forwarded_kwargs_def)

lemma map_of_without_key:
  "map_of (filter (\<lambda>kv. fst kv \<noteq> key) kwargs) k = (if k = key then None else map_of kwargs k)"
  by (induction kwargs) auto

lemma kwargs_pop_value: "fst (kwargs_pop key d kwargs) = kwargs_get kwargs key d"
  by (simp add: kwargs_pop_def kwargs_get_def)

lemma track_usage_popped:
  "truthy os (kwargs_get (snd (kwargs_pop ''customer_id'' d kwargs)) ''track_usage'' (PBool True))
     = tracking_enabled os kwargs"
  by (simp add: kwargs_pop_def tracking_enabled_def kwargs_get_def map_of_without_key)

lemma map_of_forwarded:
  "map_of (forwarded_kwargs kwargs) k =
     (if k \<in> {''customer_id'', ''track_usage'', ''metadata''} then None else map_of kwargs k)"
  by (induction kwargs) (auto simp: forwarded_kwargs_def)

lemmas wrapped_unfold = wrapped_def Let_def kwargs_pop_thrice kwargs_pop_value track_usage_popped

text \<open>
  What the failure path does for an error without a member \<^verbatim>\<open>code\<close>, or with a method
  \<^verbatim>\<open>code()\<close> that returns: the error is raised again, and the extraction function is
  called once with the classification. The literal of the source for an error with a
  code is \<^verbatim>\<open>"grpc_error"\<close>.
\<close>

lemma wrapped_failure_classified:
  assumes "method args (forwarded_kwargs kwargs) = Inl e" and "tracking_enabled os kwargs"
      and "exc_code e = NoCode \<or> exc_code e = CodeReturns s"
  shows "fst (wrapped os env method tracker_func trk name args kwargs) = Inl e"
    and "map (\<lambda>c. (tc_result c, tc_error_occurred c, tc_error_type c, tc_error_code c,
                 tc_error_message c))
           (tracker_calls (snd (wrapped os env method tracker_func trk name args kwargs))) =
         [(PNone, PBool True,
           if exc_code e = NoCode then PStr ''sdk_error'' else PStr ''grpc_error'',
           if exc_code e = NoCode then PNone else PStr s,
           PStr (exc_str e))]"
  using assms unfolding wrapped_unfold by (auto split: option.splits)

lemma wrapped_tracks_once:
  assumes "tracking_enabled os kwargs"
      and "case method args (forwarded_kwargs kwargs) of
             Inr r \<Rightarrow> True
           | Inl e \<Rightarrow> exc_code e = NoCode \<or> (\<exists>s. exc_code e = CodeReturns s)"
  shows "length (tracker_calls (snd (wrapped os env method tracker_func trk name args kwargs))) = 1"
  using assms unfolding wrapped_unfold by (auto split: sum.splits option.splits)


text \<open>
  Claim C7: the underlying method is invoked once, with the positional arguments as given
  and the keyword arguments without \<^verbatim>\<open>customer_id\<close>, \<^verbatim>\<open>track_usage\<close> and
  \<^verbatim>\<open>metadata\<close>, every other key keeping its value; nothing else of the method is looked
  at; and the extraction function, whenever it is called, receives as \<^verbatim>\<open>customer_id\<close>
  the value supplied at the call (\<^verbatim>\<open>...\<close> when none was), the same positional
  arguments and the same stripped keyword arguments.
\<close>

theorem reserved_kwargs_stripped:
  "method_calls (snd (wrapped os env method tracker_func trk name args kwargs)) =
     [(args, forwarded_kwargs kwargs)] \<and>
   (\<forall>k. map_of (forwarded_kwargs kwargs) k =
      (if k \<in> {''customer_id'', ''track_usage'', ''metadata''} then None else map_of kwargs k)) \<and>
   (\<forall>method'. method' args (forwarded_kwargs kwargs) = method args (forwarded_kwargs kwargs) \<longrightarrow>
      wrapped os env method' tracker_func trk name args kwargs =
      wrapped os env method tracker_func trk name args kwargs) \<and>
   (\<forall>c \<in> set (tracker_calls (snd (wrapped os env method tracker_func trk name args kwargs))).
      tc_customer_id c = kwargs_get kwargs ''customer_id'' PEllipsis \<and>
      tc_args c = args \<and> tc_kwargs c = forwarded_kwargs kwargs)"
proof -
  have a: "method_calls (snd (wrapped os env method tracker_func trk name args kwargs)) =
     [(args, forwarded_kwargs kwargs)]"
    unfolding wrapped_unfold by (auto split: sum.splits code_member.splits option.splits)
  have b: "wrapped os env method' tracker_func trk name args kwargs =
      wrapped os env method tracker_func trk name args kwargs"
    if "method' args (forwarded_kwargs kwargs) = method args (forwarded_kwargs kwargs)" for method'
    using that unfolding wrapped_unfold by simp
  have c: "tc_customer_id c = kwargs_get kwargs ''customer_id'' PEllipsis \<and>
      tc_args c = args \<and> tc_kwargs c = forwarded_kwargs kwargs"
    if "c \<in> set (tracker_calls (snd (wrapped os env method tracker_func trk name args kwargs)))" for c
    using that unfolding wrapped_unfold
    by (auto split: sum.splits code_member.splits option.splits if_splits)
  show ?thesis using a b c map_of_forwarded by blast
qed

text \<open>The call of \<^verbatim>\<open>test_proxy_customer_id_extraction\<close>.\<close>

theorem reserved_kwargs_stripped_witness:
  "method_calls (snd (wrapped Map.empty test_env (\<lambda>args kwargs. Inr (PStr ''result'')) (\<lambda>c. None) 0
      ''tracked_method'' [PStr ''arg1'']
      [(''customer_id'', PStr ''customer-123''), (''kwarg'', PStr ''value'')])) =
     [([PStr ''arg1''], [(''kwarg'', PStr ''value'')])] \<and>
   map tc_customer_id (tracker_calls (snd (wrapped Map.empty test_env (\<lambda>args kwargs. Inr (PStr ''result''))
      (\<lambda>c. None) 0 ''tracked_method'' [PStr ''arg1'']
      [(''customer_id'', PStr ''customer-123''), (''kwarg'', PStr ''value'')]))) =
     [PStr ''customer-123'']"
proof -
  let ?kw = "[(''customer_id'', PStr ''customer-123''), (''kwarg'', PStr ''value'')]"
  let ?w = "wrapped Map.empty test_env (\<lambda>args kwargs. Inr (PStr ''result'')) (\<lambda>c. None) 0
      ''tracked_method'' [PStr ''arg1''] ?kw"
  have f: "forwarded_kwargs ?kw = [(''kwarg'', PStr ''value'')]"
    by (simp add: forwarded_kwargs_def)
  have g: "kwargs_get ?kw ''customer_id'' PEllipsis = PStr ''customer-123''"
    by (simp add: kwargs_get_def)
  have n: "length (tracker_calls (snd ?w)) = 1"
    by (simp add: wrapped_unfold tracking_enabled_def kwargs_get_def kwargs_pop_def)
  have m: "map tc_customer_id xs = [v]" if "length xs = 1" "\<forall>c \<in> set xs. tc_customer_id c = v \<and> tc_args c = a \<and> tc_kwargs c = k"
    for xs :: "track_call list" and v a k
    using that by (cases xs) auto
  from reserved_kwargs_stripped [of Map.empty test_env "\<lambda>args kwargs. Inr (PStr ''result'')" "\<lambda>c. None" 0
      "''tracked_method''" "[PStr ''arg1'']" ?kw]
  have "method_calls (snd ?w) = [([PStr ''arg1''], forwarded_kwargs ?kw)]"
    and "\<forall>c \<in> set (tracker_calls (snd ?w)).
      tc_customer_id c = kwargs_get ?kw ''customer_id'' PEllipsis \<and>
      tc_args c = [PStr ''arg1''] \<and> tc_kwargs c = forwarded_kwargs ?kw"
    by blast+
  then show ?thesis using n m unfolding f g by blast
qed

text \<open>
  Claim C4: what the caller of the wrapper sees does not depend on what the extraction
  function does; and whenever the extraction function was called and raised, the caller
  sees exactly what the underlying method did (its result, or its own error) and the one
  warning logged is the one about that exception.
\<close>

theorem extraction_failure_isolated:
  "fst (wrapped os env method tracker_func trk name args kwargs) =
     fst (wrapped os env method (\<lambda>c. None) trk name args kwargs) \<and>
   (\<forall>c \<in> set (tracker_calls (snd (wrapped os env method tracker_func trk name args kwargs))).
      \<forall>te. tracker_func c = Some te \<longrightarrow>
        fst (wrapped os env method tracker_func trk name args kwargs) =
          method args (forwarded_kwargs kwargs) \<and>
        warnings (snd (wrapped os env method tracker_func trk name args kwargs)) =
          [''Failed to track '' @
           (if isl (method args (forwarded_kwargs kwargs)) then ''error'' else ''usage'') @
           '' for '' @ name @ '': '' @ exc_str te])"
proof -
  have a: "fst (wrapped os env method tracker_func trk name args kwargs) =
     fst (wrapped os env method (\<lambda>c. None) trk name args kwargs)"
    unfolding wrapped_unfold by (auto split: sum.splits code_member.splits)
  have b: "fst (wrapped os env method tracker_func trk name args kwargs) =
          method args (forwarded_kwargs kwargs) \<and>
        warnings (snd (wrapped os env method tracker_func trk name args kwargs)) =
          [''Failed to track '' @
           (if isl (method args (forwarded_kwargs kwargs)) then ''error'' else ''usage'') @
           '' for '' @ name @ '': '' @ exc_str te]"
    if "c \<in> set (tracker_calls (snd (wrapped os env method tracker_func trk name args kwargs)))"
      and "tracker_func c = Some te" for c te
    using that unfolding wrapped_unfold
    by (auto split: sum.splits code_member.splits option.splits if_splits)
  show ?thesis using a b by blast
qed

text \<open>
  The call of \<^verbatim>\<open>test_proxy_tracking_failure_resilience\<close>, and the same with a method
  that raises.
\<close>

theorem extraction_failure_isolated_witness:
  "fst (wrapped Map.empty test_env (\<lambda>args kwargs. Inr (PStr ''result''))
      (\<lambda>c. Some (Exc ''Exception'' ''Tracking failed'' NoCode)) 0 ''tracked_method''
      [PStr ''arg1''] [(''kwarg'', PStr ''value'')]) = Inr (PStr ''result'') \<and>
   warnings (snd (wrapped Map.empty test_env (\<lambda>args kwargs. Inr (PStr ''result''))
      (\<lambda>c. Some (Exc ''Exception'' ''Tracking failed'' NoCode)) 0 ''tracked_method''
      [PStr ''arg1''] [(''kwarg'', PStr ''value'')])) =
     [''Failed to track usage for tracked_method: Tracking failed''] \<and>
   fst (wrapped Map.empty test_env (\<lambda>args kwargs. Inl (Exc ''Exception'' ''API call failed'' NoCode))
      (\<lambda>c. Some (Exc ''Exception'' ''Tracking failed'' NoCode)) 0 ''tracked_method''
      [PStr ''arg1''] [(''kwarg'', PStr ''value'')]) =
     Inl (Exc ''Exception'' ''API call failed'' NoCode) \<and>
   warnings (snd (wrapped Map.empty test_env
      (\<lambda>args kwargs. Inl (Exc ''Exception'' ''API call failed'' NoCode))
      (\<lambda>c. Some (Exc ''Exception'' ''Tracking failed'' NoCode)) 0 ''tracked_method''
      [PStr ''arg1''] [(''kwarg'', PStr ''value'')])) =
     [''Failed to track error for tracked_method: Tracking failed'']"
  using
    extraction_failure_isolated [of Map.empty test_env "\<lambda>args kwargs. Inr (PStr ''result'')"
      "\<lambda>c. Some (Exc ''Exception'' ''Tracking failed'' NoCode)" 0 "''tracked_method''"
      "[PStr ''arg1'']" "[(''kwarg'', PStr ''value'')]"]
    extraction_failure_isolated [of Map.empty test_env
      "\<lambda>args kwargs. Inl (Exc ''Exception'' ''API call failed'' NoCode)"
      "\<lambda>c. Some (Exc ''Exception'' ''Tracking failed'' NoCode)" 0 "''tracked_method''"
      "[PStr ''arg1'']" "[(''kwarg'', PStr ''value'')]"]
  by (simp add: wrapped_unfold tracking_enabled_def kwargs_get_def kwargs_pop_def
      forwarded_kwargs_def)

text \<open>
  Claim C3 says that the wrapper raises the method's own exception again and calls the
  extraction function once. The handler evaluates \<^verbatim>\<open>e.code()\<close> whenever
  \<^verbatim>\<open>hasattr(e, 'code')\<close>. For an error whose \<^verbatim>\<open>code\<close> is an integer, as the errors of
  \<^verbatim>\<open>google.genai.errors.APIError\<close> have it, that call raises TypeError inside the handler: the caller
  gets the TypeError instead of the error, and the extraction function is not called.
\<close>

theorem noncallable_code_replaces_error:
  "wrapped Map.empty test_env (\<lambda>args kwargs. Inl api_error) (\<lambda>c. None) 0 ''generate_content'' []
     [(''model'', PStr ''gemini-2.5-flash'')] =
   (Inl (Exc ''TypeError'' (quoted ''int'' @ '' object is not callable'') NoCode),
    [MethodCalled [] [(''model'', PStr ''gemini-2.5-flash'')]])"
  by (simp add: wrapped_unfold api_error_def forwarded_kwargs_def)

text \<open>
  Claim C1 says that an error with a member \<^verbatim>\<open>code\<close> is classified and that the
  classification is passed to the extraction function. For the same error as above no
  call of the extraction function takes place, whatever the arguments of the call.
\<close>

theorem noncallable_code_not_classified:
  "tracker_calls (snd (wrapped os env (\<lambda>args kwargs. Inl api_error) tracker_func trk name args
     kwargs)) = []"
  by (simp add: wrapped_unfold api_error_def)

section \<open>Properties of the forwarding proxy\<close>

lemma getattr_cached:
  "self < length (proxies st) \<Longrightarrow> p_tracked_attributes (proxies st ! self) name = Some h \<Longrightarrow>
   TrackedProxy_getattr st self name = (Inr h, st)"
  by (simp add: TrackedProxy_getattr_def)

lemma getattr_memoized:
  assumes "TrackedProxy_getattr st self name = (Inr h, st')"
  shows "self < length (proxies st') \<and> p_tracked_attributes (proxies st' ! self) name = Some h"
  using assms
  by (auto simp: TrackedProxy_getattr_def Let_def memoize_def wrap_method_def
      TrackedProxy_init_def nth_append
      split: if_splits option.splits sum.splits prod.splits)

lemma getattr_keeps_entries:
  assumes "TrackedProxy_getattr st q n = (r, st')"
      and "self < length (proxies st)"
      and "p_tracked_attributes (proxies st ! self) name = Some h"
  shows "self < length (proxies st') \<and> p_tracked_attributes (proxies st' ! self) name = Some h"
  using assms
  by (auto simp: TrackedProxy_getattr_def Let_def memoize_def wrap_method_def
      TrackedProxy_init_def nth_append nth_list_update
      split: if_splits option.splits sum.splits prod.splits)

lemma step_keeps_entries:
  assumes "self < length (proxies st)"
      and "p_tracked_attributes (proxies st ! self) name = Some h"
  shows "self < length (proxies (step st a)) \<and>
         p_tracked_attributes (proxies (step st a) ! self) name = Some h"
proof (cases a)
  case (Access q n)
  then show ?thesis
    using getattr_keeps_entries [OF _ assms, of q n] by (cases "TrackedProxy_getattr st q n") auto
next
  case (SetMember b n v)
  then show ?thesis using assms by (simp add: set_member_def split: option.splits)
next
  case (DelMember b n)
  then show ?thesis using assms by (simp add: del_member_def split: option.splits)
qed

lemma run_keeps_entries:
  "self < length (proxies st) \<Longrightarrow> p_tracked_attributes (proxies st ! self) name = Some h \<Longrightarrow>
   self < length (proxies (run st acts)) \<and>
   p_tracked_attributes (proxies (run st acts) ! self) name = Some h"
  unfolding run_def
proof (induction acts arbitrary: st)
  case Nil
  then show ?case by simp
next
  case (Cons a acts)
  from step_keeps_entries [OF Cons.prems, of a] show ?case
    using Cons.IH [of "step st a"] by simp
qed

lemma getattr_passthrough:
  assumes "self < length (proxies st)"
      and "p_tracked_attributes (proxies st ! self) name = None"
      and "py_getattr (heap st) (p_client (proxies st ! self)) name = Some attr"
      and "map_of (p_track_methods (proxies st ! self)) name = None"
      and "\<not> (py_has_dict (heap st) attr \<and> \<not> py_scalar (heap st) attr \<and>
              sub_track_methods name (p_track_methods (proxies st ! self)) \<noteq> [])"
  shows "fst (TrackedProxy_getattr st self name) = Inr (Member attr)"
  using assms by (auto simp: TrackedProxy_getattr_def Let_def)

lemma sub_track_methods_empty:
  "sub_track_methods name tm = [] \<longleftrightarrow> (\<forall>kv \<in> set tm. \<not> prefix (name @ ''.'') (fst kv))"
proof -
  have "take (length name + 1) k = name @ ''.'' \<longleftrightarrow> prefix (name @ ''.'') k" for k
    by (metis append_eq_conv_conj length_append_singleton prefix_def Suc_eq_plus1)
  then show ?thesis
    by (auto simp: sub_track_methods_def filter_empty_conv)
qed


lemmas fixture_defs = gemini_proxy_def gemini_objects_def GEMINI_TRACK_METHODS_def
  TrackedProxy_init_def plain_object_def bound_method_def

lemmas getattr_eval = TrackedProxy_getattr_def Let_def memoize_def wrap_method_def
  sub_track_methods_def py_callable_def py_has_dict_def py_scalar_def quoted_def

lemma map_of_dict_set: "map_of (dict_set d k v) = (map_of d)(k \<mapsto> v)"
  by (induction d) (auto simp: fun_eq_iff)

lemma getattr_after_set_member:
  assumes "heap st a = Some ob"
  shows "py_getattr (heap (set_member st a name v)) (PRef a) name = Some v"
  using assms by (simp add: set_member_def map_of_dict_set)

lemma set_member_proxies:
  "proxies (set_member st a name v) = proxies st" "wrappers (set_member st a name v) = wrappers st"
  by (simp_all add: set_member_def split: option.splits)

lemma prefix_key: "take (length name + 1) k = name @ ''.'' \<longleftrightarrow> k = name @ ''.'' @ drop (length name + 1) k"
  by (metis append.assoc append_eq_conv_conj length_append_singleton Suc_eq_plus1 append_take_drop_id)

lemma map_of_sub_track_methods:
  "map_of (sub_track_methods name tm) s = map_of tm (name @ ''.'' @ s)"
proof (induction tm)
  case Nil
  then show ?case by (simp add: sub_track_methods_def)
next
  case (Cons kv tm)
  have "fst kv = name @ ''.'' @ s \<longleftrightarrow>
        take (length name + 1) (fst kv) = name @ ''.'' \<and> drop (length name + 1) (fst kv) = s"
    by (metis append.assoc append_eq_conv_conj length_append_singleton Suc_eq_plus1)
  with Cons show ?case
    by (cases kv) (auto simp: sub_track_methods_def)
qed

lemma set_sub_track_methods:
  "set (sub_track_methods name tm) = {(s, f). (name @ ''.'' @ s, f) \<in> set tm}"
proof -
  have a: "(name @ ''.'' @ drop (length name + 1) k, f) \<in> set tm"
    if "(k, f) \<in> set tm" "take (length name + 1) k = name @ ''.''" for k f
    using that prefix_key [of name k] by simp
  have b: "(s, f) \<in> (\<lambda>kv. (drop (length name + 1) (fst kv), snd kv)) `
             {kv \<in> set tm. take (length name + 1) (fst kv) = name @ ''.''}"
    if "(name @ ''.'' @ s, f) \<in> set tm" for s f
    using that by (force simp: image_iff)
  show ?thesis
    unfolding sub_track_methods_def using a b by auto
qed

lemma getattr_child:
  assumes "self < length (proxies st)"
      and "p_tracked_attributes (proxies st ! self) name = None"
      and "py_getattr (heap st) (p_client (proxies st ! self)) name = Some ob"
      and "\<not> (py_callable (heap st) ob \<and> map_of (p_track_methods (proxies st ! self)) name \<noteq> None)"
      and "py_has_dict (heap st) ob" and "\<not> py_scalar (heap st) ob"
      and "sub_track_methods name (p_track_methods (proxies st ! self)) \<noteq> []"
  shows "\<exists>st1. TrackedProxy_getattr st self name = (Inr (ProxyRef (length (proxies st))), st1) \<and>
           heap st1 = heap st \<and> wrappers st1 = wrappers st \<and>
           length (proxies st1) = Suc (length (proxies st)) \<and>
           proxies st1 ! length (proxies st) =
             \<lparr>p_client = ob, p_tracker = p_tracker (proxies st ! self),
              p_track_methods = sub_track_methods name (p_track_methods (proxies st ! self)),
              p_tracked_attributes = Map.empty\<rparr>"
  using assms
  by (auto simp: TrackedProxy_getattr_def Let_def TrackedProxy_init_def memoize_def nth_append)

lemma getattr_wrap:
  assumes "self < length (proxies st)"
      and "p_tracked_attributes (proxies st ! self) name = None"
      and "py_getattr (heap st) (p_client (proxies st ! self)) name = Some m"
      and "py_callable (heap st) m"
      and "map_of (p_track_methods (proxies st ! self)) name = Some f"
  shows "\<exists>st1. TrackedProxy_getattr st self name = (Inr (WrappedRef (length (wrappers st))), st1) \<and>
           heap st1 = heap st \<and> length (proxies st1) = length (proxies st) \<and>
           length (wrappers st1) = Suc (length (wrappers st)) \<and>
           wrappers st1 ! length (wrappers st) =
             \<lparr>w_method = m, w_method_name = name, w_tracker_func = f, w_self = self\<rparr>"
  using assms
  by (auto simp: TrackedProxy_getattr_def Let_def wrap_method_def memoize_def)

lemma access_path_keeps_entries:
  "access_path st h path = (r, st') \<Longrightarrow> self < length (proxies st) \<Longrightarrow>
   p_tracked_attributes (proxies st ! self) name = Some x \<Longrightarrow>
   self < length (proxies st') \<and> p_tracked_attributes (proxies st' ! self) name = Some x"
proof (induction st h path arbitrary: r st' rule: access_path.induct)
  case (2 st p n ns)
  obtain r1 st1 where g: "TrackedProxy_getattr st p n = (r1, st1)"
    by (cases "TrackedProxy_getattr st p n")
  note k = getattr_keeps_entries [OF g "2.prems"(2,3)]
  show ?case
  proof (cases r1)
    case (Inl e)
    with g "2.prems"(1) k show ?thesis by simp
  next
    case (Inr h1)
    with g "2.prems"(1) have "access_path st1 h1 ns = (r, st')" by simp
    from "2.IH" [OF g [symmetric] _ this] Inr k show ?thesis by simp
  qed
qed (auto split: option.splits)

text \<open>
  What an access leaves alone: the client, the tracker and the table of every proxy, the
  wrappers made before, and the names of a proxy that are not memoized, but for the name
  accessed.
\<close>

lemma getattr_keeps_fields:
  assumes "TrackedProxy_getattr st q name = (r, st')" and "p < length (proxies st)"
  shows "heap st' = heap st \<and> p < length (proxies st') \<and>
         p_client (proxies st' ! p) = p_client (proxies st ! p) \<and>
         p_tracker (proxies st' ! p) = p_tracker (proxies st ! p) \<and>
         p_track_methods (proxies st' ! p) = p_track_methods (proxies st ! p)"
  using assms
  by (auto simp: TrackedProxy_getattr_def Let_def memoize_def wrap_method_def
      TrackedProxy_init_def nth_append nth_list_update
      split: if_splits option.splits sum.splits prod.splits)

lemma getattr_keeps_wrappers:
  assumes "TrackedProxy_getattr st q name = (r, st')" and "w < length (wrappers st)"
  shows "w < length (wrappers st') \<and> wrappers st' ! w = wrappers st ! w"
  using assms
  by (auto simp: TrackedProxy_getattr_def Let_def memoize_def wrap_method_def
      TrackedProxy_init_def nth_append
      split: if_splits option.splits sum.splits prod.splits)

lemma getattr_keeps_unmemoized:
  assumes "TrackedProxy_getattr st q name = (r, st')" and "p < length (proxies st)"
      and "p_tracked_attributes (proxies st ! p) n = None" and "q \<noteq> p \<or> name \<noteq> n"
  shows "p_tracked_attributes (proxies st' ! p) n = None"
  using assms
  by (auto simp: TrackedProxy_getattr_def Let_def memoize_def wrap_method_def
      TrackedProxy_init_def nth_append nth_list_update
      split: if_splits option.splits sum.splits prod.splits)

text \<open>
  The chained access along the path of a key. What is asked of the table and the target
  at a proxy holds of the child proxy for the rest of the path.
\<close>

lemma tracked_key_child:
  assumes "map_of tm (dotted (n # n2 # ns)) = Some f"
      and "target_path os client (n # n2 # ns) = Some m"
      and "\<forall>pre. pre \<noteq> [] \<and> strict_prefix pre (n # n2 # ns) \<longrightarrow>
             namespace_member os tm client pre"
  shows "\<exists>ob. py_getattr os client n = Some ob \<and> py_has_dict os ob \<and> \<not> py_scalar os ob \<and>
           \<not> (py_callable os ob \<and> map_of tm n \<noteq> None) \<and>
           sub_track_methods n tm \<noteq> [] \<and>
           map_of (sub_track_methods n tm) (dotted (n2 # ns)) = Some f \<and>
           target_path os ob (n2 # ns) = Some m \<and>
           (\<forall>pre. pre \<noteq> [] \<and> strict_prefix pre (n2 # ns) \<longrightarrow>
              namespace_member os (sub_track_methods n tm) ob pre)"
proof -
  have "strict_prefix [n] (n # n2 # ns)" by simp
  with assms(3) have "namespace_member os tm client [n]" by blast
  then obtain ob where ob: "py_getattr os client n = Some ob"
    and ob_ns: "py_has_dict os ob" "\<not> py_scalar os ob"
      "\<not> (py_callable os ob \<and> map_of tm n \<noteq> None)"
    by (auto simp: namespace_member_def split: option.splits)
  have key: "map_of (sub_track_methods n tm) (dotted (n2 # ns)) = Some f"
    using assms(1) by (simp add: map_of_sub_track_methods)
  then have ne: "sub_track_methods n tm \<noteq> []" by auto
  have tp: "target_path os ob (n2 # ns) = Some m"
    using assms(2) ob by simp
  have sp: "namespace_member os (sub_track_methods n tm) ob pre"
    if pre: "pre \<noteq> [] \<and> strict_prefix pre (n2 # ns)" for pre
  proof -
    from pre have "strict_prefix (n # pre) (n # n2 # ns)" by simp
    with assms(3) have "namespace_member os tm client (n # pre)" by blast
    moreover from pre obtain a as where "pre = a # as" by (cases pre) auto
    ultimately show ?thesis
      using ob
      by (auto simp: namespace_member_def map_of_sub_track_methods split: option.splits)
  qed
  from ob ob_ns key ne tp sp show ?thesis by blast
qed

lemma nested_access:
  assumes "path \<noteq> []"
      and "self < length (proxies st)"
      and "memo_current st self path"
      and "map_of (p_track_methods (proxies st ! self)) (dotted path) = Some f"
      and "target_path (heap st) (p_client (proxies st ! self)) path = Some m"
      and "py_callable (heap st) m"
      and "\<forall>pre. pre \<noteq> [] \<and> strict_prefix pre path \<longrightarrow>
             namespace_member (heap st) (p_track_methods (proxies st ! self))
               (p_client (proxies st ! self)) pre"
  shows "\<exists>w st'. access_path st (ProxyRef self) path = (Inr (WrappedRef w), st') \<and>
           access_path st' (ProxyRef self) path = (Inr (WrappedRef w), st') \<and>
           heap st' = heap st \<and> w < length (wrappers st') \<and>
           w_method (wrappers st' ! w) = m \<and>
           w_tracker_func (wrappers st' ! w) = f \<and>
           w_self (wrappers st' ! w) < length (proxies st')"
  using assms
proof (induction path arbitrary: st self rule: dotted.induct)
  case 1
  then show ?case by simp
next
  case (2 n)
  let ?p = "proxies st ! self"
  from "2.prems"(5) have attr: "py_getattr (heap st) (p_client ?p) n = Some m"
    by (simp split: option.splits)
  show ?case
  proof (cases "p_tracked_attributes ?p n")
    case None
    with "2.prems" attr obtain st1 where
      g: "TrackedProxy_getattr st self n = (Inr (WrappedRef (length (wrappers st))), st1)"
      and s: "heap st1 = heap st" "length (proxies st1) = length (proxies st)"
        "length (wrappers st1) = Suc (length (wrappers st))"
        "wrappers st1 ! length (wrappers st) =
           \<lparr>w_method = m, w_method_name = n, w_tracker_func = f, w_self = self\<rparr>"
      using getattr_wrap [of self st n m f] by auto
    from getattr_memoized [OF g] have "TrackedProxy_getattr st1 self n =
        (Inr (WrappedRef (length (wrappers st))), st1)"
      by (simp add: getattr_cached)
    with g s "2.prems"(2) show ?thesis by auto
  next
    case (Some h)
    with "2.prems"(3,4) attr obtain w where w: "h = WrappedRef w" "w < length (wrappers st)"
      "w_method (wrappers st ! w) = m" "w_tracker_func (wrappers st ! w) = f"
      "w_self (wrappers st ! w) < length (proxies st)"
      by (cases h) auto
    from getattr_cached [OF "2.prems"(2) Some]
    have "TrackedProxy_getattr st self n = (Inr h, st)" .
    with w show ?thesis by auto
  qed
next
  case (3 n n2 ns)
  let ?rest = "n2 # ns"
  let ?p = "proxies st ! self"
  let ?tm = "p_track_methods ?p"
  from tracked_key_child [OF "3.prems"(4,5,7)]
  obtain ob where ob: "py_getattr (heap st) (p_client ?p) n = Some ob"
    and ob_ns: "py_has_dict (heap st) ob" "\<not> py_scalar (heap st) ob"
      "\<not> (py_callable (heap st) ob \<and> map_of ?tm n \<noteq> None)"
      "sub_track_methods n ?tm \<noteq> []"
    and key: "map_of (sub_track_methods n ?tm) (dotted ?rest) = Some f"
    and tp: "target_path (heap st) ob ?rest = Some m"
    and sp: "\<forall>pre. pre \<noteq> [] \<and> strict_prefix pre ?rest \<longrightarrow>
               namespace_member (heap st) (sub_track_methods n ?tm) ob pre"
    by blast
  have "\<exists>c st1. TrackedProxy_getattr st self n = (Inr (ProxyRef c), st1) \<and>
          heap st1 = heap st \<and> c < length (proxies st1) \<and>
          p_client (proxies st1 ! c) = ob \<and>
          p_track_methods (proxies st1 ! c) = sub_track_methods n ?tm \<and>
          memo_current st1 c ?rest"
  proof (cases "p_tracked_attributes ?p n")
    case None
    from getattr_child [OF "3.prems"(2) None ob ob_ns(3) ob_ns(1,2) ob_ns(4)]
    obtain st1 where
      "TrackedProxy_getattr st self n = (Inr (ProxyRef (length (proxies st))), st1)"
      "heap st1 = heap st" "length (proxies st1) = Suc (length (proxies st))"
      "proxies st1 ! length (proxies st) =
         \<lparr>p_client = ob, p_tracker = p_tracker ?p,
          p_track_methods = sub_track_methods n ?tm, p_tracked_attributes = Map.empty\<rparr>"
      by auto
    then show ?thesis
      by (intro exI [of _ "length (proxies st)"] exI [of _ st1]) simp
  next
    case (Some h)
    with "3.prems"(3) ob obtain c where "h = ProxyRef c" "c < length (proxies st)"
      "p_client (proxies st ! c) = ob"
      "p_track_methods (proxies st ! c) = sub_track_methods n ?tm"
      "memo_current st c ?rest"
      by (cases h) auto
    with getattr_cached [OF "3.prems"(2) Some] show ?thesis by auto
  qed
  then obtain c st1 where
    g: "TrackedProxy_getattr st self n = (Inr (ProxyRef c), st1)"
    and s: "heap st1 = heap st" "c < length (proxies st1)" "p_client (proxies st1 ! c) = ob"
      "p_track_methods (proxies st1 ! c) = sub_track_methods n ?tm"
      "memo_current st1 c ?rest"
    by blast
  from "3.IH" [of c st1] s key tp sp "3.prems"(6)
  obtain w st' where
    a: "access_path st1 (ProxyRef c) ?rest = (Inr (WrappedRef w), st')"
    and b: "access_path st' (ProxyRef c) ?rest = (Inr (WrappedRef w), st')"
    and r: "heap st' = heap st1" "w < length (wrappers st')" "w_method (wrappers st' ! w) = m"
      "w_tracker_func (wrappers st' ! w) = f"
      "w_self (wrappers st' ! w) < length (proxies st')"
    by auto
  from getattr_memoized [OF g]
  have "self < length (proxies st') \<and>
        p_tracked_attributes (proxies st' ! self) n = Some (ProxyRef c)"
    using access_path_keeps_entries [OF a, of self n "ProxyRef c"] by blast
  then have "TrackedProxy_getattr st' self n = (Inr (ProxyRef c), st')"
    by (simp add: getattr_cached)
  with a b g r s show ?case by auto
qed

lemma call_wrapped_tracks_once:
  assumes "w < length (wrappers st)" and "w_self (wrappers st ! w) < length (proxies st)"
      and "tracking_enabled (heap st) kwargs"
      and "case impl (w_method (wrappers st ! w)) args (forwarded_kwargs kwargs) of
             Inr r \<Rightarrow> True
           | Inl e \<Rightarrow> exc_code e = NoCode \<or> (\<exists>s. exc_code e = CodeReturns s)"
  shows "length (tracker_calls (snd (call_wrapped impl raises env st w args kwargs))) = 1"
  using assms
    wrapped_tracks_once [of "heap st" kwargs "impl (w_method (wrappers st ! w))" args]
  by (simp add: call_wrapped_def Let_def)

text \<open>
  An access through any proxy, of any name, leaves the memo entries along the path of a
  key current.
\<close>

lemma memo_current_stable:
  assumes "TrackedProxy_getattr st q name = (r, st')"
      and "path \<noteq> []"
      and "self < length (proxies st)"
      and "memo_current st self path"
      and "map_of (p_track_methods (proxies st ! self)) (dotted path) = Some f"
      and "target_path (heap st) (p_client (proxies st ! self)) path = Some m"
      and "py_callable (heap st) m"
      and "\<forall>pre. pre \<noteq> [] \<and> strict_prefix pre path \<longrightarrow>
             namespace_member (heap st) (p_track_methods (proxies st ! self))
               (p_client (proxies st ! self)) pre"
  shows "memo_current st' self path"
  using assms(2-)
proof (induction path arbitrary: self rule: dotted.induct)
  case 1
  then show ?case by simp
next
  case (2 n)
  let ?p = "proxies st ! self"
  note k = getattr_keeps_fields [OF assms(1) "2.prems"(2)]
  from "2.prems"(5) have attr: "py_getattr (heap st) (p_client ?p) n = Some m"
    by (simp split: option.splits)
  show ?case
  proof (cases "p_tracked_attributes ?p n")
    case (Some h)
    with "2.prems"(3) attr obtain w where w: "h = WrappedRef w" "w < length (wrappers st)"
      "w_method (wrappers st ! w) = m"
      "map_of (p_track_methods ?p) n = Some (w_tracker_func (wrappers st ! w))"
      "w_self (wrappers st ! w) < length (proxies st)"
      by (cases h) auto
    from getattr_keeps_entries [OF assms(1) "2.prems"(2) Some]
      getattr_keeps_wrappers [OF assms(1) w(2)]
      getattr_keeps_fields [OF assms(1) w(5)] k w attr
    show ?thesis by simp
  next
    case None
    show ?thesis
    proof (cases "q = self \<and> name = n")
      case True
      from getattr_wrap [OF "2.prems"(2) None attr "2.prems"(6)] "2.prems"(4) True assms(1)
      have "r = Inr (WrappedRef (length (wrappers st)))"
        "length (wrappers st') = Suc (length (wrappers st))"
        "wrappers st' ! length (wrappers st) =
           \<lparr>w_method = m, w_method_name = n, w_tracker_func = f, w_self = self\<rparr>"
        by auto
      with getattr_memoized [of st self n "WrappedRef (length (wrappers st))" st']
        assms(1) True k attr "2.prems"(4)
      show ?thesis by simp
    next
      case False
      with getattr_keeps_unmemoized [OF assms(1) "2.prems"(2) None] show ?thesis by auto
    qed
  qed
next
  case (3 n n2 ns)
  let ?rest = "n2 # ns"
  let ?p = "proxies st ! self"
  let ?tm = "p_track_methods ?p"
  note k = getattr_keeps_fields [OF assms(1) "3.prems"(2)]
  from tracked_key_child [OF "3.prems"(4,5,7)]
  obtain ob where ob: "py_getattr (heap st) (p_client ?p) n = Some ob"
    and ob_ns: "py_has_dict (heap st) ob" "\<not> py_scalar (heap st) ob"
      "\<not> (py_callable (heap st) ob \<and> map_of ?tm n \<noteq> None)"
      "sub_track_methods n ?tm \<noteq> []"
    and key: "map_of (sub_track_methods n ?tm) (dotted ?rest) = Some f"
    and tp: "target_path (heap st) ob ?rest = Some m"
    and sp: "\<forall>pre. pre \<noteq> [] \<and> strict_prefix pre ?rest \<longrightarrow>
               namespace_member (heap st) (sub_track_methods n ?tm) ob pre"
    by blast
  show ?case
  proof (cases "p_tracked_attributes ?p n")
    case (Some h)
    with "3.prems"(3) ob obtain c where c: "h = ProxyRef c" "c < length (proxies st)"
      "p_client (proxies st ! c) = ob"
      "p_track_methods (proxies st ! c) = sub_track_methods n ?tm"
      "memo_current st c ?rest"
      by (cases h) auto
    from "3.IH" [of c] c key tp sp "3.prems"(6)
    have "memo_current st' c ?rest" by simp
    with getattr_keeps_entries [OF assms(1) "3.prems"(2) Some]
      getattr_keeps_fields [OF assms(1) c(2)] k c ob
    show ?thesis by simp
  next
    case None
    show ?thesis
    proof (cases "q = self \<and> name = n")
      case True
      from getattr_child [OF "3.prems"(2) None ob ob_ns(3) ob_ns(1,2) ob_ns(4)] True assms(1)
      have "r = Inr (ProxyRef (length (proxies st)))"
        "length (proxies st') = Suc (length (proxies st))"
        "proxies st' ! length (proxies st) =
           \<lparr>p_client = ob, p_tracker = p_tracker ?p,
            p_track_methods = sub_track_methods n ?tm, p_tracked_attributes = Map.empty\<rparr>"
        by auto
      with getattr_memoized [of st self n "ProxyRef (length (proxies st))" st']
        assms(1) True k ob
      show ?thesis by simp
    next
      case False
      with getattr_keeps_unmemoized [OF assms(1) "3.prems"(2) None] show ?thesis by auto
    qed
  qed
qed

text \<open>
  Claim C5, amended: for a name that the target does not have and that the proxy has not
  memoized, \<^verbatim>\<open>__getattr__\<close> raises AttributeError with the message
  \<^verbatim>\<open>'<type of the target>' object has no attribute '<name>'\<close> and leaves the state as
  it was, so nothing is memoized; when the name is then set on the target, the next
  access through the proxy succeeds and returns the new member (as it is, or wrapped, or
  proxied).
\<close>

theorem missing_member_fails_unmemoized:
  assumes "self < length (proxies st)"
      and "p_tracked_attributes (proxies st ! self) name = None"
      and "py_getattr (heap st) (p_client (proxies st ! self)) name = None"
  shows "TrackedProxy_getattr st self name =
           (Inl (Exc ''AttributeError''
              (quoted (py_type_name (heap st) (p_client (proxies st ! self))) @
                 '' object has no attribute '' @ quoted name) NoCode), st) \<and>
         (\<forall>a ob v. p_client (proxies st ! self) = PRef a \<and> heap st a = Some ob \<longrightarrow>
            fst (TrackedProxy_getattr
                   (set_member (snd (TrackedProxy_getattr st self name)) a name v) self name) \<in>
              {Inr (Member v), Inr (WrappedRef (length (wrappers st))),
               Inr (ProxyRef (length (proxies st)))})"
proof -
  have fails: "TrackedProxy_getattr st self name =
           (Inl (Exc ''AttributeError''
              (quoted (py_type_name (heap st) (p_client (proxies st ! self))) @
                 '' object has no attribute '' @ quoted name) NoCode), st)"
    using assms by (simp add: TrackedProxy_getattr_def)
  have later: "fst (TrackedProxy_getattr (set_member st a name v) self name) \<in>
              {Inr (Member v), Inr (WrappedRef (length (wrappers st))),
               Inr (ProxyRef (length (proxies st)))}"
    if "p_client (proxies st ! self) = PRef a" "heap st a = Some ob" for a ob v
    using assms(1,2) that getattr_after_set_member [OF that(2), of name v]
    by (auto simp: TrackedProxy_getattr_def Let_def set_member_proxies wrap_method_def
        TrackedProxy_init_def split: option.splits)
  show ?thesis using fails later by simp
qed

text \<open>\<^verbatim>\<open>test_proxy_attribute_error\<close>, followed by setting the member on the client.\<close>

theorem missing_member_fails_unmemoized_witness:
  "TrackedProxy_getattr gemini_proxy 0 ''nonexistent_attr'' =
     (Inl (Exc ''AttributeError''
        (quoted ''Client'' @ '' object has no attribute '' @ quoted ''nonexistent_attr'')
        NoCode), gemini_proxy) \<and>
   fst (TrackedProxy_getattr
          (set_member (snd (TrackedProxy_getattr gemini_proxy 0 ''nonexistent_attr'')) 10
             ''nonexistent_attr'' (PInt 7)) 0 ''nonexistent_attr'') = Inr (Member (PInt 7))"
proof -
  have a: "0 < length (proxies gemini_proxy)"
    "p_tracked_attributes (proxies gemini_proxy ! 0) ''nonexistent_attr'' = None"
    "py_getattr (heap gemini_proxy) (p_client (proxies gemini_proxy ! 0)) ''nonexistent_attr'' = None"
    "py_type_name (heap gemini_proxy) (p_client (proxies gemini_proxy ! 0)) = ''Client''"
    by (simp_all add: fixture_defs)
  from missing_member_fails_unmemoized [OF a(1,2,3)]
  have f: "TrackedProxy_getattr gemini_proxy 0 ''nonexistent_attr'' =
     (Inl (Exc ''AttributeError''
        (quoted ''Client'' @ '' object has no attribute '' @ quoted ''nonexistent_attr'')
        NoCode), gemini_proxy)"
    unfolding a(4) by simp
  have "fst (TrackedProxy_getattr (set_member gemini_proxy 10 ''nonexistent_attr'' (PInt 7)) 0
          ''nonexistent_attr'') = Inr (Member (PInt 7))"
    by (simp add: fixture_defs set_member_def getattr_eval)
  with f show ?thesis by simp
qed

text \<open>
  Claim C5 as stated speaks of every name absent from the target. The memo is consulted
  before the target (lines 50-51) and is never invalidated: after a member was accessed
  through the proxy and then deleted from the client, the name is absent from the target
  and the access still succeeds, with the memoized member.
\<close>

theorem stale_entry_hides_missing_member:
  "py_getattr (heap (run gemini_proxy [Access 0 ''api_version'', DelMember 10 ''api_version'']))
     (p_client (proxies (run gemini_proxy
        [Access 0 ''api_version'', DelMember 10 ''api_version'']) ! 0)) ''api_version'' = None \<and>
   fst (TrackedProxy_getattr
          (run gemini_proxy [Access 0 ''api_version'', DelMember 10 ''api_version'']) 0
          ''api_version'') = Inr (Member (PStr ''v1''))"
  by (simp add: run_def fixture_defs del_member_def getattr_eval)

text \<open>
  Claim C6, amended. Whenever \<^verbatim>\<open>__getattr__\<close> returns a handle for a name, every later
  access of that name through the same proxy returns the same handle and changes nothing,
  whatever accesses through any proxy and whatever changes of the client's objects lie
  between. And the first access of a name that the target has and that is no key of the
  table returns the member of the target itself, unless the member is a structured object
  (with a \<^verbatim>\<open>__dict__\<close>, no scalar) and some key of the table begins with the name and a
  dot.
\<close>

theorem resolved_member_memoized:
  "(TrackedProxy_getattr st self name = (Inr h, st') \<longrightarrow>
      TrackedProxy_getattr (run st' acts) self name = (Inr h, run st' acts)) \<and>
   (self < length (proxies st) \<and>
    p_tracked_attributes (proxies st ! self) name = None \<and>
    py_getattr (heap st) (p_client (proxies st ! self)) name = Some attr \<and>
    map_of (p_track_methods (proxies st ! self)) name = None \<and>
    \<not> (py_has_dict (heap st) attr \<and> \<not> py_scalar (heap st) attr \<and>
       (\<exists>kv \<in> set (p_track_methods (proxies st ! self)). prefix (name @ ''.'') (fst kv))) \<longrightarrow>
      fst (TrackedProxy_getattr st self name) = Inr (Member attr))"
proof -
  have memo: "TrackedProxy_getattr (run st' acts) self name = (Inr h, run st' acts)"
    if "TrackedProxy_getattr st self name = (Inr h, st')"
    using run_keeps_entries [of self st' name h acts] getattr_memoized [OF that]
    by (simp add: getattr_cached)
  have pass: "fst (TrackedProxy_getattr st self name) = Inr (Member attr)"
    if "self < length (proxies st)"
      "p_tracked_attributes (proxies st ! self) name = None"
      "py_getattr (heap st) (p_client (proxies st ! self)) name = Some attr"
      "map_of (p_track_methods (proxies st ! self)) name = None"
      "\<not> (py_has_dict (heap st) attr \<and> \<not> py_scalar (heap st) attr \<and>
         (\<exists>kv \<in> set (p_track_methods (proxies st ! self)). prefix (name @ ''.'') (fst kv)))"
    using that getattr_passthrough [of self st name attr]
    by (auto simp: sub_track_methods_empty)
  show ?thesis using memo pass by blast
qed

text \<open>
  The string member of the client: returned as it is, and again after the client's member
  was replaced and another name was accessed.
\<close>

theorem resolved_member_memoized_witness:
  "fst (TrackedProxy_getattr gemini_proxy 0 ''api_version'') = Inr (Member (PStr ''v1'')) \<and>
   fst (TrackedProxy_getattr
          (run (snd (TrackedProxy_getattr gemini_proxy 0 ''api_version''))
             [SetMember 10 ''api_version'' (PStr ''v2''), Access 0 ''models''])
          0 ''api_version'') = Inr (Member (PStr ''v1''))"
proof -
  obtain st' where g: "TrackedProxy_getattr gemini_proxy 0 ''api_version'' = (Inr (Member (PStr ''v1'')), st')"
    by (simp add: fixture_defs getattr_eval)
  have a: "0 < length (proxies gemini_proxy) \<and>
    p_tracked_attributes (proxies gemini_proxy ! 0) ''api_version'' = None \<and>
    py_getattr (heap gemini_proxy) (p_client (proxies gemini_proxy ! 0)) ''api_version'' = Some (PStr ''v1'') \<and>
    map_of (p_track_methods (proxies gemini_proxy ! 0)) ''api_version'' = None \<and>
    \<not> (py_has_dict (heap gemini_proxy) (PStr ''v1'') \<and> \<not> py_scalar (heap gemini_proxy) (PStr ''v1'') \<and>
       (\<exists>kv \<in> set (p_track_methods (proxies gemini_proxy ! 0)). prefix (''api_version'' @ ''.'') (fst kv)))"
    by (simp add: fixture_defs py_has_dict_def)
  from resolved_member_memoized [of gemini_proxy 0 "''api_version''" "Member (PStr ''v1'')" st'
      "[SetMember 10 ''api_version'' (PStr ''v2''), Access 0 ''models'']" "PStr ''v1''"] g a
  show ?thesis by simp
qed

text \<open>
  Claim C6 as stated says that a name present on the target and absent from the table
  yields exactly the member of the target. \<^verbatim>\<open>models\<close> is no key of
  \<^verbatim>\<open>GEMINI_TRACK_METHODS\<close>, the client has the member, and the proxy returns a child
  proxy for it (lines 69-83), not the member.
\<close>

theorem namespace_member_is_proxied:
  "map_of GEMINI_TRACK_METHODS ''models'' = None \<and>
   py_getattr (heap gemini_proxy) (p_client (proxies gemini_proxy ! 0)) ''models'' =
     Some (PRef 11) \<and>
   fst (TrackedProxy_getattr gemini_proxy 0 ''models'') = Inr (ProxyRef 1)"
  by (simp add: fixture_defs getattr_eval)

text \<open>
  Claim C8, amended. Let \<open>path\<close> be the member names of a key of the table of a proxy,
  let the target have the members along the path, the last one callable, let every
  member before the last be a namespace (a structured object that is not at once callable
  and a key of the table), and let the memo entries along the path be current (no member
  on the path was replaced after it was memoized; on a fresh proxy there are none). Then
  the access of the first name yields a child proxy for that member of the target, whose
  table holds exactly the keys that began with the name and a dot, without that prefix;
  the chained access of the whole path yields a wrapper of the last member with the
  extraction function of the key, and yields the same wrapper when repeated; every call
  of the wrapper with tracking enabled whose underlying method returns, or raises an
  error that has no member \<^verbatim>\<open>code\<close> or a method \<^verbatim>\<open>code()\<close> that returns, calls the
  extraction function exactly once; and after an access of any name through any proxy
  the memo entries along the path are current again, so that all of this holds in every
  state that accesses lead to.
\<close>

theorem nested_key_tracked_once:
  assumes "self < length (proxies st)"
      and "memo_current st self path"
      and "path \<noteq> []"
      and "map_of (p_track_methods (proxies st ! self)) (dotted path) = Some f"
      and "target_path (heap st) (p_client (proxies st ! self)) path = Some m"
      and "py_callable (heap st) m"
      and "\<forall>pre. pre \<noteq> [] \<and> strict_prefix pre path \<longrightarrow>
             namespace_member (heap st) (p_track_methods (proxies st ! self))
               (p_client (proxies st ! self)) pre"
  shows "(\<forall>n rest. path = n # rest \<and> rest \<noteq> [] \<longrightarrow>
            (\<exists>c st1. TrackedProxy_getattr st self n = (Inr (ProxyRef c), st1) \<and>
               c < length (proxies st1) \<and>
               py_getattr (heap st) (p_client (proxies st ! self)) n =
                 Some (p_client (proxies st1 ! c)) \<and>
               p_track_methods (proxies st1 ! c) =
                 sub_track_methods n (p_track_methods (proxies st ! self)) \<and>
               set (p_track_methods (proxies st1 ! c)) =
                 {(s, g). (n @ ''.'' @ s, g) \<in> set (p_track_methods (proxies st ! self))})) \<and>
         (\<exists>w st'. access_path st (ProxyRef self) path = (Inr (WrappedRef w), st') \<and>
            access_path st' (ProxyRef self) path = (Inr (WrappedRef w), st') \<and>
            w < length (wrappers st') \<and>
            w_method (wrappers st' ! w) = m \<and> w_tracker_func (wrappers st' ! w) = f \<and>
            (\<forall>impl raises env args kwargs.
               tracking_enabled (heap st) kwargs \<and>
               (case impl m args (forwarded_kwargs kwargs) of
                  Inr r \<Rightarrow> True
                | Inl e \<Rightarrow> exc_code e = NoCode \<or> (\<exists>s. exc_code e = CodeReturns s)) \<longrightarrow>
               length (tracker_calls (snd (call_wrapped impl raises env st' w args kwargs))) =
                 1)) \<and>
         (\<forall>q name. memo_current (snd (TrackedProxy_getattr st q name)) self path)"
proof -
  let ?p = "proxies st ! self"
  let ?tm = "p_track_methods ?p"
  have child: "\<exists>c st1. TrackedProxy_getattr st self n = (Inr (ProxyRef c), st1) \<and>
               c < length (proxies st1) \<and>
               py_getattr (heap st) (p_client ?p) n = Some (p_client (proxies st1 ! c)) \<and>
               p_track_methods (proxies st1 ! c) = sub_track_methods n ?tm \<and>
               set (p_track_methods (proxies st1 ! c)) =
                 {(s, g). (n @ ''.'' @ s, g) \<in> set ?tm}"
    if p: "path = n # rest" "rest \<noteq> []" for n rest
  proof -
    from p obtain n2 ns where rest: "rest = n2 # ns" by (cases rest) auto
    from tracked_key_child [of ?tm n n2 ns f "heap st" "p_client ?p" m] assms(4,5,7) p rest
    obtain ob where ob: "py_getattr (heap st) (p_client ?p) n = Some ob"
      and ob_ns: "py_has_dict (heap st) ob" "\<not> py_scalar (heap st) ob"
        "\<not> (py_callable (heap st) ob \<and> map_of ?tm n \<noteq> None)"
        "sub_track_methods n ?tm \<noteq> []"
      by blast
    have "\<exists>c st1. TrackedProxy_getattr st self n = (Inr (ProxyRef c), st1) \<and>
            c < length (proxies st1) \<and> p_client (proxies st1 ! c) = ob \<and>
            p_track_methods (proxies st1 ! c) = sub_track_methods n ?tm"
    proof (cases "p_tracked_attributes ?p n")
      case None
      from getattr_child [OF assms(1) None ob ob_ns(3) ob_ns(1,2) ob_ns(4)]
      obtain st1 where
        "TrackedProxy_getattr st self n = (Inr (ProxyRef (length (proxies st))), st1)"
        "length (proxies st1) = Suc (length (proxies st))"
        "proxies st1 ! length (proxies st) =
           \<lparr>p_client = ob, p_tracker = p_tracker ?p,
            p_track_methods = sub_track_methods n ?tm, p_tracked_attributes = Map.empty\<rparr>"
        by auto
      then show ?thesis
        by (intro exI [of _ "length (proxies st)"] exI [of _ st1]) simp
    next
      case (Some h)
      with assms(2) ob p rest obtain c where "h = ProxyRef c" "c < length (proxies st)"
        "p_client (proxies st ! c) = ob"
        "p_track_methods (proxies st ! c) = sub_track_methods n ?tm"
        by (cases h) auto
      with getattr_cached [OF assms(1) Some] show ?thesis by auto
    qed
    with ob set_sub_track_methods [of n ?tm] show ?thesis by auto
  qed
  from nested_access [OF assms(3) assms(1,2) assms(4-7)]
  obtain w st' where a: "access_path st (ProxyRef self) path = (Inr (WrappedRef w), st')"
    "access_path st' (ProxyRef self) path = (Inr (WrappedRef w), st')"
    "heap st' = heap st"
    "w < length (wrappers st')" "w_method (wrappers st' ! w) = m"
    "w_tracker_func (wrappers st' ! w) = f"
    "w_self (wrappers st' ! w) < length (proxies st')"
    by blast
  have once: "length (tracker_calls (snd (call_wrapped impl raises env st' w args kwargs))) = 1"
    if "tracking_enabled (heap st) kwargs"
      "case impl m args (forwarded_kwargs kwargs) of
         Inr r \<Rightarrow> True
       | Inl e \<Rightarrow> exc_code e = NoCode \<or> (\<exists>s. exc_code e = CodeReturns s)"
    for impl raises env args kwargs
    using call_wrapped_tracks_once [OF a(4) a(7), of kwargs impl args] that a(3,5) by simp
  have stable: "memo_current (snd (TrackedProxy_getattr st q name)) self path" for q name
    using memo_current_stable [OF _ assms(3) assms(1,2) assms(4-7), of q name]
    by (cases "TrackedProxy_getattr st q name") simp
  from a once have "\<exists>w st'. access_path st (ProxyRef self) path = (Inr (WrappedRef w), st') \<and>
            access_path st' (ProxyRef self) path = (Inr (WrappedRef w), st') \<and>
            w < length (wrappers st') \<and>
            w_method (wrappers st' ! w) = m \<and> w_tracker_func (wrappers st' ! w) = f \<and>
            (\<forall>impl raises env args kwargs.
               tracking_enabled (heap st) kwargs \<and>
               (case impl m args (forwarded_kwargs kwargs) of
                  Inr r \<Rightarrow> True
                | Inl e \<Rightarrow> exc_code e = NoCode \<or> (\<exists>s. exc_code e = CodeReturns s)) \<longrightarrow>
               length (tracker_calls (snd (call_wrapped impl raises env st' w args kwargs))) =
                 1)"
    by blast
  with child stable show ?thesis by blast
qed

text \<open>
  \<^verbatim>\<open>proxy.models.generate_content(model="models/x")\<close> on the proxy of the Gemini
  client, after \<^verbatim>\<open>proxy.models.count_tokens\<close> was accessed: the proxy and its child
  are not fresh.
\<close>

theorem nested_key_tracked_once_witness:
  "p_tracked_attributes (proxies used_gemini_proxy ! 0) ''models'' = Some (ProxyRef 1) \<and>
   fst (TrackedProxy_getattr used_gemini_proxy 0 ''models'') = Inr (ProxyRef 1) \<and>
   fst (access_path used_gemini_proxy (ProxyRef 0) [''models'', ''generate_content'']) =
     Inr (WrappedRef 1) \<and>
   length (tracker_calls (snd (call_wrapped (\<lambda>v args kwargs. Inr (PStr ''result''))
      (\<lambda>f c. None) test_env
      (snd (access_path used_gemini_proxy (ProxyRef 0) [''models'', ''generate_content''])) 1
      [] [(''model'', PStr ''models/x'')]))) = 1"
proof -
  let ?path = "[''models'', ''generate_content'']"
  let ?st = used_gemini_proxy
  have st: "heap ?st = gemini_objects"
    "proxies ?st =
       [\<lparr>p_client = PRef 10, p_tracker = 0, p_track_methods = GEMINI_TRACK_METHODS,
         p_tracked_attributes = [''models'' \<mapsto> ProxyRef 1]\<rparr>,
        \<lparr>p_client = PRef 11, p_tracker = 0,
         p_track_methods =
           [(''generate_content'', TrackGenerateContent), (''count_tokens'', TrackCountTokens)],
         p_tracked_attributes = [''count_tokens'' \<mapsto> WrappedRef 0]\<rparr>]"
    "wrappers ?st =
       [\<lparr>w_method = PRef 13, w_method_name = ''count_tokens'',
         w_tracker_func = TrackCountTokens, w_self = 1\<rparr>]"
    by (simp_all add: used_gemini_proxy_def run_def fixture_defs getattr_eval)
  have h: "0 < length (proxies ?st)"
    "memo_current ?st 0 ?path"
    "?path \<noteq> []"
    "map_of (p_track_methods (proxies ?st ! 0)) (dotted ?path) = Some TrackGenerateContent"
    "target_path (heap ?st) (p_client (proxies ?st ! 0)) ?path = Some (PRef 12)"
    "py_callable (heap ?st) (PRef 12)"
    by (simp_all add: st fixture_defs py_callable_def sub_track_methods_def)
  have ns: "\<forall>pre. pre \<noteq> [] \<and> strict_prefix pre ?path \<longrightarrow>
     namespace_member (heap ?st) (p_track_methods (proxies ?st ! 0))
       (p_client (proxies ?st ! 0)) pre"
  proof (intro allI impI)
    fix pre :: "string list"
    assume "pre \<noteq> [] \<and> strict_prefix pre ?path"
    then have "pre = [''models'']"
      by (cases pre; cases "tl pre") auto
    then show "namespace_member (heap ?st)
       (p_track_methods (proxies ?st ! 0)) (p_client (proxies ?st ! 0)) pre"
      by (simp add: st fixture_defs namespace_member_def py_has_dict_def py_scalar_def
          py_callable_def)
  qed
  have e: "fst (access_path ?st (ProxyRef 0) ?path) = Inr (WrappedRef 1)"
    "fst (TrackedProxy_getattr ?st 0 ''models'') = Inr (ProxyRef 1)"
    "p_tracked_attributes (proxies ?st ! 0) ''models'' = Some (ProxyRef 1)"
    by (simp_all add: st state.defs fixture_defs getattr_eval nth_append)
  have t: "tracking_enabled (heap ?st) [(''model'', PStr ''models/x'')]"
    by (simp add: tracking_enabled_def kwargs_get_def)
  from nested_key_tracked_once [OF h ns]
  obtain w st' where a: "access_path ?st (ProxyRef 0) ?path = (Inr (WrappedRef w), st')"
    and b: "\<forall>impl raises env args kwargs.
               tracking_enabled (heap ?st) kwargs \<and>
               (case impl (PRef 12) args (forwarded_kwargs kwargs) of
                  Inr r \<Rightarrow> True
                | Inl e \<Rightarrow> exc_code e = NoCode \<or> (\<exists>s. exc_code e = CodeReturns s)) \<longrightarrow>
               length (tracker_calls (snd (call_wrapped impl raises env st' w args kwargs))) = 1"
    by blast
  from a e(1) have w: "w = 1" "snd (access_path ?st (ProxyRef 0) ?path) = st'"
    by (simp_all del: access_path.simps)
  have "length (tracker_calls (snd (call_wrapped (\<lambda>v args kwargs. Inr (PStr ''result''))
      (\<lambda>f c. None) test_env st' w [] [(''model'', PStr ''models/x'')]))) = 1"
    by (rule b [rule_format]) (simp add: t)
  with e w show ?thesis by (simp del: access_path.simps)
qed

text \<open>
  Claim C8 as stated speaks of every key with a dotted prefix and of every call. With
  the keys \<^verbatim>\<open>outer\<close> and \<^verbatim>\<open>outer.op\<close> over a client of Mocks, the access of
  \<^verbatim>\<open>outer\<close> yields a wrapper (line 63 comes before line 69), not a child proxy, and
  the access of \<^verbatim>\<open>outer.op\<close> through the proxy fails. A call through the chained
  proxies of the Gemini client with \<^verbatim>\<open>track_usage=False\<close> calls the method and no
  extraction function. And where \<^verbatim>\<open>outer\<close> was an integer when it was first accessed
  and is a namespace with the method \<^verbatim>\<open>op\<close> now, the access of \<^verbatim>\<open>outer\<close> still
  yields the integer (the memo is never invalidated). And where \<^verbatim>\<open>outer\<close> is an object
  without \<^verbatim>\<open>__dict__\<close>, the access of \<^verbatim>\<open>outer.op\<close> yields the method of the
  target itself, with no wrapper around it.
\<close>

theorem tracked_prefix_is_wrapped:
  "map_of (p_track_methods (proxies overlapping_proxy ! 0)) ''outer.op'' = Some (Extraction 2) \<and>
   target_path (heap overlapping_proxy) (p_client (proxies overlapping_proxy ! 0))
     [''outer'', ''op''] = Some (PRef 22) \<and>
   fst (TrackedProxy_getattr overlapping_proxy 0 ''outer'') = Inr (WrappedRef 0) \<and>
   fst (access_path overlapping_proxy (ProxyRef 0) [''outer'', ''op'']) =
     Inl (Exc ''AttributeError''
       (quoted ''function'' @ '' object has no attribute '' @ quoted ''op'') NoCode) \<and>
   fst (access_path gemini_proxy (ProxyRef 0) [''models'', ''generate_content'']) =
     Inr (WrappedRef 0) \<and>
   call_wrapped (\<lambda>v args kwargs. Inr (PStr ''result'')) (\<lambda>f c. None) test_env
     (snd (access_path gemini_proxy (ProxyRef 0) [''models'', ''generate_content''])) 0 []
     [(''model'', PStr ''models/x''), (''track_usage'', PBool False)] =
     (Inr (PStr ''result''), [MethodCalled [] [(''model'', PStr ''models/x'')]]) \<and>
   map_of (p_track_methods (proxies replaced_member_proxy ! 0)) ''outer.op'' =
     Some (Extraction 1) \<and>
   target_path (heap replaced_member_proxy) (p_client (proxies replaced_member_proxy ! 0))
     [''outer'', ''op''] = Some (PRef 32) \<and>
   fst (TrackedProxy_getattr replaced_member_proxy 0 ''outer'') = Inr (Member (PInt 5)) \<and>
   target_path (heap slotted_proxy) (p_client (proxies slotted_proxy ! 0))
     [''outer'', ''op''] = Some (PRef 42) \<and>
   fst (access_path slotted_proxy (ProxyRef 0) [''outer'', ''op'']) = Inr (Member (PRef 42))"
  by (simp add: overlapping_proxy_def replaced_member_proxy_def slotted_proxy_def run_def
      set_member_def
      mock_def fixture_defs getattr_eval nth_append call_wrapped_def wrapped_def
      kwargs_pop_def)

end
